theory Spec2Isabelle
  imports Complex_Main "HOL-Library.Word"
begin

unbundle bit_operations_syntax

section \<open>EmuThread: the run-control loop (bootmanager.cpp, EmuThread::run)\<close>

subsection \<open>Data\<close>

text \<open>
  \<open>Core::System::ResultStatus\<close> is declared in core/core.h. The loop only compares a
  result with \<open>Success\<close>; every other enumerator is kept by its number.
\<close>

datatype ResultStatus = Success | ErrorStatus nat

text \<open>
  \<open>VideoCore::LoadCallbackStage\<close>: the function names \<open>Prepare\<close> and \<open>Complete\<close>; the
  stages reported by the rasterizer's callback are kept by number.
\<close>

datatype LoadCallbackStage = Prepare | Complete | Stage nat

text \<open>The Qt signals of \<open>EmuThread\<close> that \<open>run\<close> emits.\<close>

datatype emu_signal =
    LoadProgress LoadCallbackStage nat nat
  | DebugModeLeft
  | DebugModeEntered
  | ErrorThrown ResultStatus string

text \<open>
  What the thread does that is visible outside it, in program order: signals and calls
  into the emulation core, the GPU, and the thread's own helpers.
\<close>

datatype emu_event =
    Emit emu_signal
  | MicroProfileOnThreadCreate string
  | SetCurrentThreadName string
  | RegisterHostThread
  | GpuStart
  | GpuObtainContext
  | LoadDiskResources
  | GpuReleaseContext
  | SystemRun
  | SystemPause
  | RunningWait
  | RunningCvWait
  | CallSetRunning bool
  | Unimplemented
  | SystemShutdown
  | MicroProfileOnThreadExit

text \<open>
  The member flags of \<open>EmuThread\<close> that \<open>run\<close> reads and writes, and the local
  variable \<open>was_active\<close> of \<open>run\<close>.
\<close>

record EmuThread =
  exec_step :: bool
  running :: bool
  stop_run :: bool
  running_guard :: bool

record loop_state = EmuThread +
  was_active :: bool

text \<open>
  The three request flags are written by other threads (resume, step and stop requests).
  A write is the triple of values the flags hold afterwards; \<open>None\<close> is "nobody wrote".
\<close>

record flags =
  f_exec_step :: bool
  f_running :: bool
  f_stop_run :: bool

definition set_flags :: "flags \<Rightarrow> loop_state \<Rightarrow> loop_state" where
  "set_flags f t = t\<lparr>exec_step := f_exec_step f, running := f_running f, stop_run := f_stop_run f\<rparr>"

definition other_threads :: "flags option \<Rightarrow> loop_state \<Rightarrow> loop_state" where
  "other_threads w t = (case w of None \<Rightarrow> t | Some f \<Rightarrow> set_flags f t)"

definition flags_of :: "loop_state \<Rightarrow> flags" where
  "flags_of t = \<lparr>f_exec_step = exec_step t, f_running = running t, f_stop_run = stop_run t\<rparr>"

text \<open>
  What the rest of the program does during one iteration of the loop: the results of the
  two calls into the core, the status details read after each, and the writes of other
  threads to the request flags while the thread is inside \<open>Run()\<close>, inside
  \<open>running_wait.Wait()\<close>, inside \<open>Pause()\<close>, at each wake-up of \<open>running_cv\<close>, and
  between the end of the body and the next test of the loop condition.
\<close>

record iteration_env =
  run_result :: ResultStatus
  run_details :: string
  during_run :: "flags option"
  during_wait :: "flags option"
  pause_result :: ResultStatus
  pause_details :: string
  during_pause :: "flags option"
  cv_wakeups :: "flags list"
  after_body :: "flags option"

subsection \<open>Helpers declared outside the file\<close>

text \<open>
  Modelled from the spec: \<open>EmuThread::SetRunning\<close> is declared in yuzu/bootmanager.h,
  which is not among the sources. The spec says a failed Run/Pause "forces state back to
  not running", and the loop's wait predicate reads the running flag through
  \<open>IsRunning()\<close>: \<open>SetRunning b\<close> stores \<open>b\<close> in the running flag.
\<close>

definition SetRunning :: "bool \<Rightarrow> loop_state \<Rightarrow> loop_state" where
  "SetRunning b t = t\<lparr>running := b\<rparr>"

text \<open>
  Modelled from the spec: \<open>EmuThread::IsRunning\<close> (yuzu/bootmanager.h) reads the
  "running flag" of the wait predicate.
\<close>

definition IsRunning :: "flags \<Rightarrow> bool" where
  "IsRunning f = f_running f"

subsection \<open>The loop body\<close>

text \<open>Lines 103-105 and 110-112: the handling of a non-success result.\<close>

definition on_failure :: "ResultStatus \<Rightarrow> string \<Rightarrow> loop_state \<Rightarrow> emu_event list \<times> loop_state" where
  "on_failure result details t =
     ([CallSetRunning False, Emit (ErrorThrown result details)],
      SetRunning False (t\<lparr>running_guard := False\<rparr>))"

text \<open>Lines 96-106: the DebugModeLeft signal, the guard, \<open>system.Run()\<close> and its result.\<close>

definition run_step :: "iteration_env \<Rightarrow> loop_state \<Rightarrow> emu_event list \<times> loop_state" where
  "run_step env t =
     (let left = (if was_active t then [Emit DebugModeLeft] else []);
          t1 = t\<lparr>running_guard := True\<rparr>;
          t2 = other_threads (during_run env) t1;
          (failure, t3) =
             (if run_result env \<noteq> Success then on_failure (run_result env) (run_details env) t2
              else ([], t2))
      in (left @ [SystemRun] @ failure, t3))"

text \<open>Line 107: \<open>running_wait.Wait()\<close>.\<close>

definition wait_step :: "iteration_env \<Rightarrow> loop_state \<Rightarrow> emu_event list \<times> loop_state" where
  "wait_step env t = ([RunningWait], other_threads (during_wait env) t)"

text \<open>Lines 108-113: \<open>system.Pause()\<close> and its result.\<close>

definition pause_step :: "iteration_env \<Rightarrow> loop_state \<Rightarrow> emu_event list \<times> loop_state" where
  "pause_step env t =
     (let t1 = other_threads (during_pause env) t;
          (failure, t2) =
             (if pause_result env \<noteq> Success
              then on_failure (pause_result env) (pause_details env) t1
              else ([], t1))
      in ([SystemPause] @ failure, t2))"

text \<open>Lines 114-119: the guard is cleared; unless a stop was requested, debug mode is entered.\<close>

definition finish_step :: "loop_state \<Rightarrow> emu_event list \<times> loop_state" where
  "finish_step t =
     (let t1 = t\<lparr>running_guard := False\<rparr>
      in if \<not> stop_run t1 then ([Emit DebugModeEntered], t1\<lparr>was_active := True\<rparr>)
         else ([], t1))"

text \<open>Lines 95-119: the branch taken when the running flag is set.\<close>

definition running_branch :: "iteration_env \<Rightarrow> loop_state \<Rightarrow> emu_event list \<times> loop_state" where
  "running_branch env t =
     (let (e1, t1) = run_step env t;
          (e2, t2) = wait_step env t1;
          (e3, t3) = pause_step env t2;
          (e4, t4) = finish_step t3
      in (e1 @ e2 @ e3 @ e4, t4))"

text \<open>
  Line 124: \<open>running_cv.wait(lock, pred)\<close> returns as soon as the predicate holds, testing
  it first on the flags as they are and then at each wake-up. The result is whether the
  wait has returned, and the flags last seen; when the wake-ups end without the predicate
  holding, the thread is still blocked.
\<close>

definition wait_pred :: "flags \<Rightarrow> bool" where
  "wait_pred f = (IsRunning f \<or> f_exec_step f \<or> f_stop_run f)"

primrec cv_wait :: "flags \<Rightarrow> flags list \<Rightarrow> bool \<times> flags" where
  "cv_wait f [] = (wait_pred f, f)"
| "cv_wait f (w # ws) = (if wait_pred f then (True, f) else cv_wait w ws)"

datatype body_result = Continue loop_state | BodyCrashed | BodyBlocked loop_state

text \<open>
  One iteration of the body of \<open>while (!stop_run)\<close>. \<open>UNIMPLEMENTED()\<close> is a macro of
  common/assert.h, which is not among the sources: the parameter \<open>assert_returns\<close> says
  whether control comes back from it (\<open>False\<close>: the process is aborted there).
  The loop condition and the two tests at the top of the body read the flags as they
  stand after the last write of \<open>iteration_env\<close> before them.
\<close>

definition loop_body :: "bool \<Rightarrow> iteration_env \<Rightarrow> loop_state \<Rightarrow> emu_event list \<times> body_result" where
  "loop_body assert_returns env t =
     (if running t then
        (let (evs, t') = running_branch env t
         in (evs, Continue (other_threads (after_body env) t')))
      else if exec_step t then
        ([Unimplemented],
         if assert_returns then Continue (other_threads (after_body env) t) else BodyCrashed)
      else
        (case cv_wait (flags_of t) (cv_wakeups env) of
           (False, f) \<Rightarrow> ([RunningCvWait], BodyBlocked (set_flags f t))
         | (True, f) \<Rightarrow> ([RunningCvWait], Continue (other_threads (after_body env) (set_flags f t)))))"

subsection \<open>The loop and the thread function\<close>

text \<open>
  How an execution stands at the end of the environment it was given: the loop was left
  (with the state it was left in), the process was aborted in \<open>UNIMPLEMENTED()\<close>, the
  thread is blocked on \<open>running_cv\<close>, or the loop is at its head with the stop flag
  clear and would go on.
\<close>

datatype loop_status =
    LoopExited loop_state
  | LoopCrashed
  | LoopBlocked loop_state
  | LoopPending loop_state

text \<open>
  Lines 94-126. The result is the events of each iteration of the body, in order, and the
  status. The loop condition is tested before each iteration.
\<close>

fun emu_loop :: "bool \<Rightarrow> loop_state \<Rightarrow> iteration_env list \<Rightarrow> emu_event list list \<times> loop_status" where
  "emu_loop assert_returns t [] = ([], if stop_run t then LoopExited t else LoopPending t)"
| "emu_loop assert_returns t (env # envs) =
     (if stop_run t then ([], LoopExited t)
      else
        (case loop_body assert_returns env t of
           (evs, Continue t') \<Rightarrow>
             (let (iters, status) = emu_loop assert_returns t' envs in (evs # iters, status))
         | (evs, BodyCrashed) \<Rightarrow> ([evs], LoopCrashed)
         | (evs, BodyBlocked t') \<Rightarrow> ([evs], LoopBlocked t')))"

text \<open>
  The build options the function depends on: \<open>MICROPROFILE_ENABLED\<close> and the behaviour
  of \<open>UNIMPLEMENTED()\<close>.
\<close>

record emu_build =
  microprofile_enabled :: bool
  assert_returns :: bool

text \<open>
  What the rest of the program does during one execution of \<open>run\<close>: the progress
  reports of \<open>LoadDiskResources\<close>, the writes of other threads to the request flags up
  to the first test of the loop condition, and the iterations.
\<close>

record run_env =
  disk_progress :: "(LoadCallbackStage \<times> nat \<times> nat) list"
  during_load :: "flags option"
  iterations :: "iteration_env list"

definition thread_name :: string where
  "thread_name = ''yuzu:EmuControlThread''"

text \<open>Lines 63-88.\<close>

definition run_prologue :: "run_env \<Rightarrow> emu_event list" where
  "run_prologue env =
     [MicroProfileOnThreadCreate thread_name, SetCurrentThreadName thread_name,
      RegisterHostThread, GpuStart, GpuObtainContext,
      Emit (LoadProgress Prepare 0 0), LoadDiskResources]
     @ map (\<lambda>(stage, v, total). Emit (LoadProgress stage v total)) (disk_progress env)
     @ [Emit (LoadProgress Complete 0 0), GpuReleaseContext]"

text \<open>Lines 128-133, reached only when the loop is left.\<close>

definition run_epilogue :: "emu_build \<Rightarrow> loop_status \<Rightarrow> emu_event list" where
  "run_epilogue build status =
     (case status of
        LoopExited t \<Rightarrow>
          [SystemShutdown] @ (if microprofile_enabled build then [MicroProfileOnThreadExit] else [])
      | _ \<Rightarrow> [])"

text \<open>
  \<open>EmuThread::run\<close>, started on a thread object with the member flags \<open>t\<close>. The local
  \<open>was_active\<close> starts \<open>false\<close> (line 93).
\<close>

definition run_loop :: "emu_build \<Rightarrow> EmuThread \<Rightarrow> run_env \<Rightarrow> emu_event list list \<times> loop_status" where
  "run_loop build t env =
     emu_loop (assert_returns build)
       (other_threads (during_load env)
          \<lparr>exec_step = exec_step t, running = running t, stop_run = stop_run t,
           running_guard = running_guard t, was_active = False\<rparr>)
       (iterations env)"

definition EmuThread_run :: "emu_build \<Rightarrow> EmuThread \<Rightarrow> run_env \<Rightarrow> emu_event list \<times> loop_status" where
  "EmuThread_run build t env =
     (let (iters, status) = run_loop build t env
      in (run_prologue env @ concat iters @ run_epilogue build status, status))"

section \<open>GRenderWindow: the render-surface widget\<close>

subsection \<open>Numbers\<close>

type_synonym u32 = "32 word"

text \<open>
  \<open>qreal\<close> is a floating-point type. Its arithmetic is not fixed here: the operations
  the file uses are the fields of a record, and every definition below takes the record
  as its first argument, so that what is proved holds for any arithmetic.
  \<^item> \<open>q_zero\<close>: \<open>qreal{0.0}\<close>, and each coordinate of a default-constructed \<open>QPointF\<close>;
  \<^item> \<open>q_of_int\<close>: the conversion from \<open>int\<close>;
  \<^item> \<open>q_add\<close>, \<open>q_mul\<close>, \<open>q_div\<close>: \<open>+\<close>, \<open>*\<close>, \<open>/\<close>;
  \<^item> \<open>q_round\<close>: \<open>std::round\<close>;
  \<^item> \<open>q_less\<close>: \<open><\<close>, as \<open>std::max\<close> uses it;
  \<^item> \<open>q_to_u32\<close>: the conversion to \<open>u32\<close>.
\<close>

record 'r qreal_ops =
  q_zero :: 'r
  q_of_int :: "int \<Rightarrow> 'r"
  q_add :: "'r \<Rightarrow> 'r \<Rightarrow> 'r"
  q_mul :: "'r \<Rightarrow> 'r \<Rightarrow> 'r"
  q_div :: "'r \<Rightarrow> 'r \<Rightarrow> 'r"
  q_round :: "'r \<Rightarrow> 'r"
  q_less :: "'r \<Rightarrow> 'r \<Rightarrow> bool"
  q_to_u32 :: "'r \<Rightarrow> u32"

type_synonym 'r QPointF = "'r \<times> 'r"
type_synonym QPoint = "int \<times> int"

text \<open>\<open>std::max(a, b)\<close> is \<open>(a < b) ? b : a\<close>.\<close>

definition std_max :: "'r qreal_ops \<Rightarrow> 'r \<Rightarrow> 'r \<Rightarrow> 'r" where
  "std_max ops a b = (if q_less ops a b then b else a)"

text \<open>The conversion of a \<open>QPoint\<close> to a \<open>QPointF\<close>.\<close>

definition to_QPointF :: "'r qreal_ops \<Rightarrow> QPoint \<Rightarrow> 'r QPointF" where
  "to_QPointF ops p = (q_of_int ops (fst p), q_of_int ops (snd p))"

text \<open>\<open>QPointF::operator+=\<close> and \<open>QPointF::operator/=\<close>, coordinate by coordinate.\<close>

definition point_add :: "'r qreal_ops \<Rightarrow> 'r QPointF \<Rightarrow> 'r QPointF \<Rightarrow> 'r QPointF" where
  "point_add ops p q = (q_add ops (fst p) (fst q), q_add ops (snd p) (snd q))"

definition point_div :: "'r qreal_ops \<Rightarrow> 'r QPointF \<Rightarrow> 'r \<Rightarrow> 'r QPointF" where
  "point_div ops p c = (q_div ops (fst p) c, q_div ops (snd p) c)"

subsection \<open>Events delivered to the widget\<close>

text \<open>Qt's \<open>Qt::MouseEventSource\<close> and the mouse buttons the handlers distinguish.\<close>

datatype MouseEventSource =
    MouseEventNotSynthesized
  | MouseEventSynthesizedBySystem
  | MouseEventSynthesizedByQt
  | MouseEventSynthesizedByApplication

datatype MouseButton = LeftButton | RightButton | OtherButton nat

record QMouseEvent =
  source :: MouseEventSource
  button :: MouseButton
  pos :: QPoint

text \<open>
  Qt's \<open>Qt::TouchPointState\<close> flags (qnamespace.h): pressed 1, moved 2, stationary 4,
  released 8. A touch point carries its state flags and its position.
\<close>

definition TouchPointPressed :: "32 word" where "TouchPointPressed = 1"
definition TouchPointMoved :: "32 word" where "TouchPointMoved = 2"
definition TouchPointStationary :: "32 word" where "TouchPointStationary = 4"
definition TouchPointReleased :: "32 word" where "TouchPointReleased = 8"

record 'r TouchPoint =
  tp_state :: "32 word"
  tp_pos :: "'r QPointF"

datatype 'r QEvent =
    TouchBegin "'r TouchPoint list"
  | TouchUpdate "'r TouchPoint list"
  | TouchEnd
  | TouchCancel
  | OtherEvent

subsection \<open>What the widget does\<close>

datatype GraphicsContext = OpenGLSharedContext | DummyContext

text \<open>
  The calls the widget makes into the emulator window base class, the input subsystem,
  Qt and OpenGL, and the signal it emits, in program order.
\<close>

datatype window_event =
    TouchPressed u32 u32
  | TouchMoved u32 u32
  | TouchReleased
  | BeginTilt int int
  | Tilt int int
  | EndTilt
  | QWidget_mousePressEvent
  | QWidget_mouseMoveEvent
  | QWidget_resizeEvent
  | QWidget_showEvent
  | QWidget_event
  | UpdateCurrentFramebufferLayout u32 u32
  | FirstFrameDisplayed
  | MessageBox_warning string string
  | MessageBox_critical string string
  | LogCritical string
  | NewSharedContext GraphicsContext
  | MakeCurrent
  | DoneCurrent
  | GladLoadGL
  | SetMinimumSize int int
  | Resize int int
  | BackupGeometry

subsection \<open>State and configuration\<close>

text \<open>
  The members of \<open>GRenderWindow\<close> and the properties of the underlying \<open>QWidget\<close> that
  the modelled functions read or write. \<open>screenChanged_connected\<close> is the connection
  made in \<open>showEvent\<close>.
\<close>

record 'r GRenderWindow =
  first_frame :: bool
  widget_width :: int
  widget_height :: int
  devicePixelRatioF :: 'r
  main_context :: "GraphicsContext option"
  child_context :: "GraphicsContext option"
  screenChanged_connected :: bool

datatype RendererBackend = OpenGL | Vulkan

text \<open>
  What is fixed outside the file: the build options \<open>HAS_OPENGL\<close> and \<open>HAS_VULKAN\<close>,
  the setting \<open>renderer_backend\<close>, the constants \<open>Layout::ScreenUndocked::Width\<close> and
  \<open>Height\<close>, the minimal client area of the active configuration, and Qt's translation
  function \<open>tr\<close>.
\<close>

record window_cfg =
  has_opengl :: bool
  has_vulkan :: bool
  renderer_backend :: RendererBackend
  screen_undocked_width :: int
  screen_undocked_height :: int
  min_client_area_size :: "u32 \<times> u32"
  tr :: "string \<Rightarrow> string"

text \<open>
  What the graphics stack and Qt answer during \<open>InitRenderTarget\<close>: whether
  \<open>g_first_context\<close> is set, whether each \<open>GLContext::Create\<close> returns a context,
  the result of \<open>gladLoadGL()\<close>, the nine \<open>GLAD_GL_...\<close> variables, and the size of the
  widget after \<open>resize\<close> and \<open>setMinimumSize\<close>.
\<close>

record init_env =
  old_context :: bool
  main_created :: bool
  shared_main_created :: bool
  shared_child_created :: bool
  glad_loaded :: bool
  GLAD_GL_ARB_buffer_storage :: int
  GLAD_GL_ARB_direct_state_access :: int
  GLAD_GL_ARB_vertex_type_10f_11f_11f_rev :: int
  GLAD_GL_ARB_texture_mirror_clamp_to_edge :: int
  GLAD_GL_ARB_multi_bind :: int
  GLAD_GL_ARB_clip_control :: int
  GLAD_GL_EXT_texture_compression_s3tc :: int
  GLAD_GL_ARB_texture_compression_rgtc :: int
  GLAD_GL_ARB_depth_buffer_float :: int
  size_after_resize :: "int \<times> int"

subsection \<open>Frame notification and framebuffer size\<close>

text \<open>Lines 326-331.\<close>

definition PollEvents :: "'r GRenderWindow \<Rightarrow> window_event list \<times> 'r GRenderWindow" where
  "PollEvents w =
     (if \<not> first_frame w then ([FirstFrameDisplayed], w\<lparr>first_frame := True\<rparr>) else ([], w))"

text \<open>Lines 376-378.\<close>

definition windowPixelRatio :: "'r GRenderWindow \<Rightarrow> 'r" where
  "windowPixelRatio w = devicePixelRatioF w"

text \<open>Lines 342-349: \<open>int\<close> times \<open>qreal\<close> is a \<open>qreal\<close>, converted to \<open>u32\<close>.\<close>

definition OnFramebufferSizeChanged :: "'r qreal_ops \<Rightarrow> 'r GRenderWindow \<Rightarrow> window_event list" where
  "OnFramebufferSizeChanged ops w =
     (let pixel_ratio = windowPixelRatio w;
          width = q_to_u32 ops (q_mul ops (q_of_int ops (widget_width w)) pixel_ratio);
          height = q_to_u32 ops (q_mul ops (q_of_int ops (widget_height w)) pixel_ratio)
      in [UpdateCurrentFramebufferLayout width height])"

text \<open>Lines 489-492.\<close>

definition resizeEvent :: "'r qreal_ops \<Rightarrow> 'r GRenderWindow \<Rightarrow> window_event list" where
  "resizeEvent ops w = [QWidget_resizeEvent] @ OnFramebufferSizeChanged ops w"

text \<open>
  Lines 689-695: the connection is made with \<open>Qt::UniqueConnection\<close>, so making it again
  changes nothing.
\<close>

definition showEvent :: "'r GRenderWindow \<Rightarrow> window_event list \<times> 'r GRenderWindow" where
  "showEvent w = ([QWidget_showEvent], w\<lparr>screenChanged_connected := True\<rparr>)"

text \<open>The signal \<open>QWindow::screenChanged\<close> reaches the slot only through that connection.\<close>

definition screenChanged :: "'r qreal_ops \<Rightarrow> 'r GRenderWindow \<Rightarrow> window_event list" where
  "screenChanged ops w = (if screenChanged_connected w then OnFramebufferSizeChanged ops w else [])"

subsection \<open>Pointer and touch input\<close>

text \<open>Lines 380-384.\<close>

definition ScaleTouch :: "'r qreal_ops \<Rightarrow> 'r GRenderWindow \<Rightarrow> 'r QPointF \<Rightarrow> u32 \<times> u32" where
  "ScaleTouch ops w p =
     (let pixel_ratio = windowPixelRatio w
      in (q_to_u32 ops (std_max ops (q_round ops (q_mul ops (fst p) pixel_ratio)) (q_zero ops)),
          q_to_u32 ops (std_max ops (q_round ops (q_mul ops (snd p) pixel_ratio)) (q_zero ops))))"

text \<open>Lines 399-413.\<close>

definition mousePressEvent :: "'r qreal_ops \<Rightarrow> 'r GRenderWindow \<Rightarrow> QMouseEvent \<Rightarrow> window_event list" where
  "mousePressEvent ops w event =
     (if source event = MouseEventSynthesizedBySystem then []
      else
        (if button event = LeftButton then
           (let (x, y) = ScaleTouch ops w (to_QPointF ops (pos event)) in [TouchPressed x y])
         else if button event = RightButton then
           [BeginTilt (fst (pos event)) (snd (pos event))]
         else [])
        @ [QWidget_mousePressEvent])"

text \<open>Lines 415-426.\<close>

definition mouseMoveEvent :: "'r qreal_ops \<Rightarrow> 'r GRenderWindow \<Rightarrow> QMouseEvent \<Rightarrow> window_event list" where
  "mouseMoveEvent ops w event =
     (if source event = MouseEventSynthesizedBySystem then []
      else
        (let (x, y) = ScaleTouch ops w (to_QPointF ops (pos event))
         in [TouchMoved x y, Tilt (fst (pos event)) (snd (pos event)), QWidget_mouseMoveEvent]))"

text \<open>Lines 428-439.\<close>

definition mouseReleaseEvent :: "QMouseEvent \<Rightarrow> window_event list" where
  "mouseReleaseEvent event =
     (if source event = MouseEventSynthesizedBySystem then []
      else if button event = LeftButton then [TouchReleased]
      else if button event = RightButton then [EndTilt]
      else [])"

text \<open>
  Lines 441-445. \<open>first()\<close> of an empty list is outside what \<open>QList\<close> defines: \<open>None\<close>.
\<close>

definition TouchBeginEvent :: "'r qreal_ops \<Rightarrow> 'r GRenderWindow \<Rightarrow> 'r TouchPoint list \<Rightarrow> window_event list option" where
  "TouchBeginEvent ops w touchPoints =
     (case touchPoints of
        [] \<Rightarrow> None
      | tp # _ \<Rightarrow> (let (x, y) = ScaleTouch ops w (tp_pos tp) in Some [TouchPressed x y]))"

text \<open>Line 453: the test on the state of a touch point.\<close>

definition is_active :: "'r TouchPoint \<Rightarrow> bool" where
  "is_active tp =
     (tp_state tp AND (TouchPointPressed OR TouchPointMoved OR TouchPointStationary) \<noteq> 0)"

text \<open>
  Lines 452-457: the loop over the touch points, from the values of \<open>pos\<close> and
  \<open>active_points\<close> before it to their values after it. \<open>active_points\<close> is a 32-bit
  \<open>int\<close>, kept as its bits; \<open>++\<close> adds one.
\<close>

primrec sum_active :: "'r qreal_ops \<Rightarrow> 'r TouchPoint list \<Rightarrow> 'r QPointF \<times> 32 word \<Rightarrow> 'r QPointF \<times> 32 word" where
  "sum_active ops [] acc = acc"
| "sum_active ops (tp # tps) acc =
     sum_active ops tps
       (if is_active tp then (point_add ops (fst acc) (tp_pos tp), snd acc + 1) else acc)"

text \<open>Lines 447-463. The division on line 459 is made whatever \<open>active_points\<close> is.\<close>

definition TouchUpdateEvent :: "'r qreal_ops \<Rightarrow> 'r GRenderWindow \<Rightarrow> 'r TouchPoint list \<Rightarrow> window_event list" where
  "TouchUpdateEvent ops w touchPoints =
     (let (pos, active_points) = sum_active ops touchPoints ((q_zero ops, q_zero ops), 0);
          pos = point_div ops pos (q_of_int ops (sint active_points));
          (x, y) = ScaleTouch ops w pos
      in [TouchMoved x y])"

text \<open>Lines 465-467.\<close>

definition TouchEndEvent :: "window_event list" where
  "TouchEndEvent = [TouchReleased]"

text \<open>Lines 469-482: the events and the value returned.\<close>

definition event :: "'r qreal_ops \<Rightarrow> 'r GRenderWindow \<Rightarrow> 'r QEvent \<Rightarrow> (window_event list \<times> bool option) option" where
  "event ops w ev =
     (case ev of
        TouchBegin tps \<Rightarrow> map_option (\<lambda>evs. (evs, Some True)) (TouchBeginEvent ops w tps)
      | TouchUpdate tps \<Rightarrow> Some (TouchUpdateEvent ops w tps, Some True)
      | TouchEnd \<Rightarrow> Some (TouchEndEvent, Some True)
      | TouchCancel \<Rightarrow> Some (TouchEndEvent, Some True)
      | OtherEvent \<Rightarrow> Some ([QWidget_event], None))"

subsection \<open>Initialisation of the render target\<close>

text \<open>Lines 549-552.\<close>

definition ReleaseRenderTarget :: "'r GRenderWindow \<Rightarrow> 'r GRenderWindow" where
  "ReleaseRenderTarget w = w\<lparr>child_context := None, main_context := None\<rparr>"

text \<open>
  Lines 494-504. With OpenGL the main context is cast to \<open>OpenGLSharedContext\<close> and
  dereferenced; when it is not one, the behaviour is undefined: \<open>None\<close>.
\<close>

definition CreateSharedContext :: "window_cfg \<Rightarrow> 'r GRenderWindow \<Rightarrow> GraphicsContext option" where
  "CreateSharedContext cfg w =
     (if has_opengl cfg \<and> renderer_backend cfg = OpenGL then
        (case main_context w of
           Some OpenGLSharedContext \<Rightarrow> Some OpenGLSharedContext
         | _ \<Rightarrow> None)
      else Some DummyContext)"

text \<open>Lines 576-578: the \<open>u32\<close> values are passed as \<open>int\<close>.\<close>

definition OnMinimalClientAreaChangeRequest :: "u32 \<times> u32 \<Rightarrow> window_event list" where
  "OnMinimalClientAreaChangeRequest minimal_size =
     [SetMinimumSize (sint (fst minimal_size)) (sint (snd minimal_size))]"

text \<open>
  Lines 580-612. Without \<open>HAS_OPENGL\<close> a warning is shown. With it, the function returns
  \<open>false\<close> when there is no earlier context and the main context cannot be created;
  \<open>None\<close> is the dereference of a null context (the main one on line 599, the shared one
  on line 185).
\<close>

definition InitializeOpenGL :: "window_cfg \<Rightarrow> init_env \<Rightarrow> 'r GRenderWindow \<Rightarrow> (window_event list \<times> 'r GRenderWindow \<times> bool) option" where
  "InitializeOpenGL cfg env w =
     (if has_opengl cfg then
        (if \<not> old_context env \<and> \<not> main_created env then Some ([], w, False)
         else if \<not> main_created env then None
         else if \<not> shared_main_created env \<and> shared_child_created env then None
         else Some ([], w\<lparr>child_context := Some OpenGLSharedContext,
                          main_context := Some OpenGLSharedContext\<rparr>, True))
      else
        Some ([MessageBox_warning (tr cfg ''OpenGL not available!'')
                 (tr cfg ''yuzu has not been compiled with OpenGL support.'')], w, False))"

text \<open>Lines 614-627.\<close>

definition InitializeVulkan :: "window_cfg \<Rightarrow> 'r GRenderWindow \<Rightarrow> (window_event list \<times> 'r GRenderWindow \<times> bool) option" where
  "InitializeVulkan cfg w =
     (if has_vulkan cfg then Some ([], w\<lparr>main_context := Some DummyContext\<rparr>, True)
      else
        Some ([MessageBox_critical (tr cfg ''Vulkan not available!'')
                 (tr cfg ''yuzu has not been compiled with Vulkan support.'')], w, False))"

text \<open>
  Lines 651-679: the list built by the nine tests, in order, and the log line written for
  each of its entries. \<open>!x\<close> on an \<open>int\<close> is \<open>x == 0\<close>.
\<close>

definition GetUnsupportedGLExtensions :: "init_env \<Rightarrow> window_event list \<times> string list" where
  "GetUnsupportedGLExtensions env =
     (let unsupported_ext =
            (if GLAD_GL_ARB_buffer_storage env = 0 then [''ARB_buffer_storage''] else [])
          @ (if GLAD_GL_ARB_direct_state_access env = 0 then [''ARB_direct_state_access''] else [])
          @ (if GLAD_GL_ARB_vertex_type_10f_11f_11f_rev env = 0
             then [''ARB_vertex_type_10f_11f_11f_rev''] else [])
          @ (if GLAD_GL_ARB_texture_mirror_clamp_to_edge env = 0
             then [''ARB_texture_mirror_clamp_to_edge''] else [])
          @ (if GLAD_GL_ARB_multi_bind env = 0 then [''ARB_multi_bind''] else [])
          @ (if GLAD_GL_ARB_clip_control env = 0 then [''ARB_clip_control''] else [])
          @ (if GLAD_GL_EXT_texture_compression_s3tc env = 0
             then [''EXT_texture_compression_s3tc''] else [])
          @ (if GLAD_GL_ARB_texture_compression_rgtc env = 0
             then [''ARB_texture_compression_rgtc''] else [])
          @ (if GLAD_GL_ARB_depth_buffer_float env = 0 then [''ARB_depth_buffer_float''] else [])
      in (map (\<lambda>ext. LogCritical (''Unsupported GL extension: '' @ ext)) unsupported_ext,
          unsupported_ext))"

text \<open>\<open>QStringList::join\<close>.\<close>

fun join :: "string \<Rightarrow> string list \<Rightarrow> string" where
  "join sep [] = []"
| "join sep [x] = x"
| "join sep (x # y # ys) = x @ sep @ join sep (y # ys)"

text \<open>Lines 643-644: the text before the list of extensions, as passed to \<open>tr\<close>.\<close>

definition unsupported_extensions_message :: string where
  "unsupported_extensions_message =
     ''Your GPU may not support one or more required OpenGL extensions. Please ensure you ''
     @ ''have the latest graphics driver.<br><br>Unsupported extensions:<br>''"

text \<open>
  Lines 629-649: the events and the value returned. The scope guard of line 631 releases
  the context when the function returns.
\<close>

definition LoadOpenGL :: "window_cfg \<Rightarrow> init_env \<Rightarrow> 'r GRenderWindow \<Rightarrow> (window_event list \<times> bool) option" where
  "LoadOpenGL cfg env w =
     (case CreateSharedContext cfg w of
        None \<Rightarrow> None
      | Some context \<Rightarrow>
          (if \<not> glad_loaded env then
             Some ([NewSharedContext context, MakeCurrent, GladLoadGL,
                    MessageBox_critical (tr cfg ''Error while initializing OpenGL 4.3!'')
                      (tr cfg (''Your GPU may not support OpenGL 4.3, or you do not have the ''
                               @ ''latest graphics driver.'')),
                    DoneCurrent], False)
           else
             (let (logged, unsupported_gl_extensions) = GetUnsupportedGLExtensions env
              in if unsupported_gl_extensions \<noteq> [] then
                   Some ([NewSharedContext context, MakeCurrent, GladLoadGL] @ logged @
                         [MessageBox_critical (tr cfg ''Error while initializing OpenGL!'')
                            (tr cfg unsupported_extensions_message
                             @ join ''<br>'' unsupported_gl_extensions),
                          DoneCurrent], False)
                 else
                   Some ([NewSharedContext context, MakeCurrent, GladLoadGL] @ logged
                         @ [DoneCurrent], True))))"

text \<open>
  Lines 506-547: the events, the widget afterwards and the value returned; \<open>None\<close> where
  a callee's behaviour is undefined.
\<close>

definition InitRenderTarget :: "'r qreal_ops \<Rightarrow> window_cfg \<Rightarrow> init_env \<Rightarrow> 'r GRenderWindow \<Rightarrow> (window_event list \<times> 'r GRenderWindow \<times> bool) option" where
  "InitRenderTarget ops cfg env w =
     (let w1 = ReleaseRenderTarget w;
          w2 = w1\<lparr>first_frame := False\<rparr>
      in case (case renderer_backend cfg of
                 OpenGL \<Rightarrow> InitializeOpenGL cfg env w2
               | Vulkan \<Rightarrow> InitializeVulkan cfg w2) of
           None \<Rightarrow> None
         | Some (e1, w3, initialized) \<Rightarrow>
             (if \<not> initialized then Some (e1, w3, False)
              else
                (let w4 = w3\<lparr>widget_width := fst (size_after_resize env),
                              widget_height := snd (size_after_resize env)\<rparr>;
                     e2 = [SetMinimumSize 1 1,
                           Resize (screen_undocked_width cfg) (screen_undocked_height cfg)]
                          @ OnMinimalClientAreaChangeRequest (min_client_area_size cfg)
                          @ OnFramebufferSizeChanged ops w4
                          @ [BackupGeometry]
                 in if renderer_backend cfg = OpenGL then
                      (case LoadOpenGL cfg env w4 of
                         None \<Rightarrow> None
                       | Some (e3, loaded) \<Rightarrow>
                           (if \<not> loaded then Some (e1 @ e2 @ e3, w4, False)
                            else Some (e1 @ e2 @ e3, w4, True)))
                    else Some (e1 @ e2, w4, True))))"

subsection \<open>The widget in use\<close>

text \<open>
  What reaches the widget from outside: calls of its public functions, and Qt delivering
  events. Qt has given the widget its new size when it calls \<open>resizeEvent\<close>, and the
  window its new screen (hence its device pixel ratio) when it emits \<open>screenChanged\<close>.
  An event that Qt delivers from inside a call the widget makes is an input of its own.
\<close>

datatype 'r window_input =
    CallPollEvents
  | CallInitRenderTarget init_env
  | CallReleaseRenderTarget
  | QtResize int int
  | QtShow
  | QtScreenChanged 'r
  | QtMousePress QMouseEvent
  | QtMouseMove QMouseEvent
  | QtMouseRelease QMouseEvent
  | QtEvent "'r QEvent"

definition deliver :: "'r qreal_ops \<Rightarrow> window_cfg \<Rightarrow> 'r window_input \<Rightarrow> 'r GRenderWindow \<Rightarrow> (window_event list \<times> 'r GRenderWindow) option" where
  "deliver ops cfg i w =
     (case i of
        CallPollEvents \<Rightarrow> Some (PollEvents w)
      | CallInitRenderTarget env \<Rightarrow>
          map_option (\<lambda>(evs, w', ok). (evs, w')) (InitRenderTarget ops cfg env w)
      | CallReleaseRenderTarget \<Rightarrow> Some ([], ReleaseRenderTarget w)
      | QtResize width height \<Rightarrow>
          (let w' = w\<lparr>widget_width := width, widget_height := height\<rparr>
           in Some (resizeEvent ops w', w'))
      | QtShow \<Rightarrow> Some (showEvent w)
      | QtScreenChanged ratio \<Rightarrow>
          (let w' = w\<lparr>devicePixelRatioF := ratio\<rparr> in Some (screenChanged ops w', w'))
      | QtMousePress ev \<Rightarrow> Some (mousePressEvent ops w ev, w)
      | QtMouseMove ev \<Rightarrow> Some (mouseMoveEvent ops w ev, w)
      | QtMouseRelease ev \<Rightarrow> Some (mouseReleaseEvent ev, w)
      | QtEvent ev \<Rightarrow> map_option (\<lambda>(evs, r). (evs, w)) (event ops w ev))"

text \<open>A sequence of inputs: the events made for each input, and the widget at the end.\<close>

primrec deliver_all :: "'r qreal_ops \<Rightarrow> window_cfg \<Rightarrow> 'r window_input list \<Rightarrow> 'r GRenderWindow \<Rightarrow> (window_event list list \<times> 'r GRenderWindow) option" where
  "deliver_all ops cfg [] w = Some ([], w)"
| "deliver_all ops cfg (i # is) w =
     (case deliver ops cfg i w of
        None \<Rightarrow> None
      | Some (evs, w') \<Rightarrow>
          (case deliver_all ops cfg is w' of
             None \<Rightarrow> None
           | Some (rest, w'') \<Rightarrow> Some (evs # rest, w'')))"

section \<open>Notions used in the properties\<close>

subsection \<open>Run-control loop\<close>

text \<open>
  A write of another thread that leaves the running flag clear, and an iteration during
  which no other thread sets it after \<open>Run()\<close> has returned.
\<close>

definition keeps_paused :: "flags option \<Rightarrow> bool" where
  "keeps_paused w = (case w of None \<Rightarrow> True | Some f \<Rightarrow> \<not> f_running f)"

definition no_resume :: "iteration_env \<Rightarrow> bool" where
  "no_resume e =
     (keeps_paused (during_wait e) \<and> keeps_paused (during_pause e)
      \<and> keeps_paused (after_body e) \<and> list_all (\<lambda>f. \<not> f_running f) (cv_wakeups e))"

text \<open>What each status of the loop says about the flags.\<close>

definition status_ok :: "bool \<Rightarrow> emu_event list list \<Rightarrow> loop_status \<Rightarrow> bool" where
  "status_ok ar iters status =
     (case status of
        LoopExited t' \<Rightarrow> stop_run t'
      | LoopCrashed \<Rightarrow> \<not> ar \<and> [Unimplemented] \<in> set iters
      | LoopBlocked t' \<Rightarrow> \<not> wait_pred (flags_of t')
      | LoopPending t' \<Rightarrow> \<not> stop_run t')"

text \<open>
  "The iteration handles the step request": no assertion is tripped and the thread goes
  on.
\<close>

definition handles_step :: "bool \<Rightarrow> iteration_env \<Rightarrow> loop_state \<Rightarrow> bool" where
  "handles_step ar env t =
     (Unimplemented \<notin> set (fst (loop_body ar env t)) \<and> snd (loop_body ar env t) \<noteq> BodyCrashed)"

subsection \<open>Widget\<close>

text \<open>The arithmetic mean of a list of positions, in the arithmetic \<open>ops\<close>.\<close>

definition mean_points :: "'r qreal_ops \<Rightarrow> 'r QPointF list \<Rightarrow> 'r QPointF" where
  "mean_points ops ps =
     point_div ops (foldl (point_add ops) (q_zero ops, q_zero ops) ps)
       (q_of_int ops (int (length ps)))"

text \<open>"The touch-update event forwards the mean of the positions of its touch points."\<close>

definition forwards_mean_of_all :: "'r qreal_ops \<Rightarrow> 'r GRenderWindow \<Rightarrow> 'r TouchPoint list \<Rightarrow> bool" where
  "forwards_mean_of_all ops w tps =
     (TouchUpdateEvent ops w tps =
        (let (x, y) = ScaleTouch ops w (mean_points ops (map tp_pos tps)) in [TouchMoved x y]))"

text \<open>
  The nine required extensions, each with the variable that says whether it is supported,
  and the names of those of a list that are not.
\<close>

definition required_extensions :: "init_env \<Rightarrow> (string \<times> int) list" where
  "required_extensions env =
     [(''ARB_buffer_storage'', GLAD_GL_ARB_buffer_storage env),
      (''ARB_direct_state_access'', GLAD_GL_ARB_direct_state_access env),
      (''ARB_vertex_type_10f_11f_11f_rev'', GLAD_GL_ARB_vertex_type_10f_11f_11f_rev env),
      (''ARB_texture_mirror_clamp_to_edge'', GLAD_GL_ARB_texture_mirror_clamp_to_edge env),
      (''ARB_multi_bind'', GLAD_GL_ARB_multi_bind env),
      (''ARB_clip_control'', GLAD_GL_ARB_clip_control env),
      (''EXT_texture_compression_s3tc'', GLAD_GL_EXT_texture_compression_s3tc env),
      (''ARB_texture_compression_rgtc'', GLAD_GL_ARB_texture_compression_rgtc env),
      (''ARB_depth_buffer_float'', GLAD_GL_ARB_depth_buffer_float env)]"

definition unsupported_of :: "(string \<times> int) list \<Rightarrow> string list" where
  "unsupported_of exts = map fst (filter (\<lambda>(name, supported). supported = 0) exts)"

definition is_dialog :: "window_event \<Rightarrow> bool" where
  "is_dialog e =
     (case e of
        MessageBox_critical title text \<Rightarrow> True
      | MessageBox_warning title text \<Rightarrow> True
      | _ \<Rightarrow> False)"

definition is_InitRenderTarget :: "'r window_input \<Rightarrow> bool" where
  "is_InitRenderTarget i = (case i of CallInitRenderTarget env \<Rightarrow> True | _ \<Rightarrow> False)"

subsection \<open>Concrete inputs\<close>

text \<open>
  Exact arithmetic on the rationals, with \<open>std::round\<close> rounding halves away from zero
  and the conversion to \<open>u32\<close> truncating. It is used only on the inputs below, where
  every operation is exact in floating point as well (small integers and halves, no
  division by zero).
\<close>

definition exact_ops :: "rat qreal_ops" where
  "exact_ops =
     \<lparr>q_zero = 0, q_of_int = of_int, q_add = (+), q_mul = (*), q_div = (/),
      q_round = (\<lambda>x. of_int (if 0 \<le> x then \<lfloor>x + 1 / 2\<rfloor> else \<lceil>x - 1 / 2\<rceil>)),
      q_less = (<),
      q_to_u32 = (\<lambda>x. word_of_int (if 0 \<le> x then \<lfloor>x\<rfloor> else \<lceil>x\<rceil>))\<rparr>"

definition quiet_env :: iteration_env where
  "quiet_env =
     \<lparr>run_result = Success, run_details = [], during_run = None, during_wait = None,
      pause_result = Success, pause_details = [], during_pause = None, cv_wakeups = [],
      after_body = None\<rparr>"

definition both_fail_env :: iteration_env where
  "both_fail_env =
     quiet_env\<lparr>run_result := ErrorStatus 3, run_details := ''run failed'',
               pause_result := ErrorStatus 4, pause_details := ''pause failed''\<rparr>"

definition resumed :: flags where
  "resumed = \<lparr>f_exec_step = False, f_running = True, f_stop_run = False\<rparr>"

definition stop_requested :: flags where
  "stop_requested = \<lparr>f_exec_step = False, f_running = False, f_stop_run = True\<rparr>"

definition started_thread :: EmuThread where
  "started_thread = \<lparr>exec_step = False, running = True, stop_run = False, running_guard = False\<rparr>"

definition started :: loop_state where
  "started =
     \<lparr>exec_step = False, running = True, stop_run = False, running_guard = False,
      was_active = False\<rparr>"

definition step_requested :: loop_state where
  "step_requested =
     \<lparr>exec_step = True, running = False, stop_run = False, running_guard = False,
      was_active = False\<rparr>"

definition debug_build :: emu_build where
  "debug_build = \<lparr>microprofile_enabled = True, assert_returns = False\<rparr>"

definition failing_then_stopped :: run_env where
  "failing_then_stopped =
     \<lparr>disk_progress = [(Stage 1, 1, 2)], during_load = None,
      iterations = [both_fail_env\<lparr>during_pause := Some stop_requested\<rparr>]\<rparr>"

definition paused_then_resumed :: run_env where
  "paused_then_resumed =
     \<lparr>disk_progress = [], during_load = None,
      iterations = [quiet_env\<lparr>after_body := Some resumed\<rparr>, quiet_env]\<rparr>"

definition plain_window :: "rat GRenderWindow" where
  "plain_window =
     \<lparr>first_frame = True, widget_width = 1280, widget_height = 720, devicePixelRatioF = 1,
      main_context = Some OpenGLSharedContext, child_context = Some OpenGLSharedContext,
      screenChanged_connected = False\<rparr>"

definition two_fingers :: "rat TouchPoint list" where
  "two_fingers =
     [\<lparr>tp_state = TouchPointPressed, tp_pos = (0, 0)\<rparr>,
      \<lparr>tp_state = TouchPointReleased, tp_pos = (10, 10)\<rparr>]"

definition lifted_finger :: "rat TouchPoint list" where
  "lifted_finger = [\<lparr>tp_state = TouchPointReleased, tp_pos = (10, 10)\<rparr>]"

definition gl_cfg :: window_cfg where
  "gl_cfg =
     \<lparr>has_opengl = True, has_vulkan = True, renderer_backend = OpenGL,
      screen_undocked_width = 1280, screen_undocked_height = 720,
      min_client_area_size = (640, 360), tr = (\<lambda>s. s)\<rparr>"

definition vulkan_cfg :: window_cfg where
  "vulkan_cfg = gl_cfg\<lparr>renderer_backend := Vulkan\<rparr>"

definition old_gpu :: init_env where
  "old_gpu =
     \<lparr>old_context = False, main_created = True, shared_main_created = True,
      shared_child_created = True, glad_loaded = True,
      GLAD_GL_ARB_buffer_storage = 1,
      GLAD_GL_ARB_direct_state_access = 1,
      GLAD_GL_ARB_vertex_type_10f_11f_11f_rev = 1,
      GLAD_GL_ARB_texture_mirror_clamp_to_edge = 1,
      GLAD_GL_ARB_multi_bind = 0,
      GLAD_GL_ARB_clip_control = 0,
      GLAD_GL_EXT_texture_compression_s3tc = 1,
      GLAD_GL_ARB_texture_compression_rgtc = 1,
      GLAD_GL_ARB_depth_buffer_float = 1,
      size_after_resize = (1280, 720)\<rparr>"

definition synthesized_press :: QMouseEvent where
  "synthesized_press =
     \<lparr>source = MouseEventSynthesizedBySystem, button = LeftButton, pos = (100, 50)\<rparr>"

section \<open>Auxiliary facts\<close>

lemma other_threads_simps [simp]:
  "running_guard (other_threads w t) = running_guard t"
  "was_active (other_threads w t) = was_active t"
  "other_threads None t = t"
  "stop_run (other_threads (Some f) t) = f_stop_run f"
  "running (other_threads (Some f) t) = f_running f"
  "exec_step (other_threads (Some f) t) = f_exec_step f"
  by (simp_all add: other_threads_def set_flags_def split: option.splits)

lemma set_flags_simps [simp]:
  "running_guard (set_flags f t) = running_guard t"
  "was_active (set_flags f t) = was_active t"
  "stop_run (set_flags f t) = f_stop_run f"
  "running (set_flags f t) = f_running f"
  "exec_step (set_flags f t) = f_exec_step f"
  by (simp_all add: set_flags_def)

lemma keeps_paused_running:
  "keeps_paused w \<Longrightarrow> \<not> running t \<Longrightarrow> \<not> running (other_threads w t)"
  by (cases w) (simp_all add: keeps_paused_def)

lemma on_failure_fst: "fst (on_failure r d t) = [CallSetRunning False, Emit (ErrorThrown r d)]"
  by (simp add: on_failure_def)

lemma on_failure_snd:
  "running (snd (on_failure r d t)) = False"
  "running_guard (snd (on_failure r d t)) = False"
  "stop_run (snd (on_failure r d t)) = stop_run t"
  "exec_step (snd (on_failure r d t)) = exec_step t"
  "was_active (snd (on_failure r d t)) = was_active t"
  by (simp_all add: on_failure_def SetRunning_def)

lemma run_step_fst:
  "fst (run_step env t) =
     (if was_active t then [Emit DebugModeLeft] else []) @ [SystemRun] @
     (if run_result env \<noteq> Success
      then [CallSetRunning False, Emit (ErrorThrown (run_result env) (run_details env))] else [])"
  by (simp add: run_step_def Let_def on_failure_def split: prod.splits)

lemma run_step_failed:
  assumes "run_result env \<noteq> Success"
  shows "\<not> running (snd (run_step env t))" "\<not> running_guard (snd (run_step env t))"
  using assms by (simp_all add: run_step_def Let_def on_failure_def SetRunning_def)

lemma run_step_was_active: "was_active (snd (run_step env t)) = was_active t"
  by (simp add: run_step_def Let_def on_failure_def SetRunning_def)

lemma pause_step_fst:
  "fst (pause_step env t) = [SystemPause] @
     (if pause_result env \<noteq> Success
      then [CallSetRunning False, Emit (ErrorThrown (pause_result env) (pause_details env))] else [])"
  by (simp add: pause_step_def Let_def on_failure_def split: prod.splits)

lemma pause_step_failed:
  assumes "pause_result env \<noteq> Success"
  shows "\<not> running (snd (pause_step env t))" "\<not> running_guard (snd (pause_step env t))"
  using assms by (simp_all add: pause_step_def Let_def on_failure_def SetRunning_def)

lemma pause_step_was_active: "was_active (snd (pause_step env t)) = was_active t"
  by (simp add: pause_step_def Let_def on_failure_def SetRunning_def)

lemma pause_step_keeps_paused:
  "keeps_paused (during_pause env) \<Longrightarrow> \<not> running t \<Longrightarrow> \<not> running (snd (pause_step env t))"
  by (simp add: pause_step_def Let_def on_failure_def SetRunning_def keeps_paused_running)

lemma wait_step_simps:
  "fst (wait_step env t) = [RunningWait]"
  "snd (wait_step env t) = other_threads (during_wait env) t"
  by (simp_all add: wait_step_def)

lemma finish_step_fst:
  "fst (finish_step t) = (if stop_run t then [] else [Emit DebugModeEntered])"
  by (simp add: finish_step_def Let_def)

lemma finish_step_snd:
  "running (snd (finish_step t)) = running t"
  "stop_run (snd (finish_step t)) = stop_run t"
  "exec_step (snd (finish_step t)) = exec_step t"
  "running_guard (snd (finish_step t)) = False"
  "was_active (snd (finish_step t)) = (was_active t \<or> \<not> stop_run t)"
  by (simp_all add: finish_step_def Let_def)

lemma running_branch_fst:
  "fst (running_branch env t) =
     fst (run_step env t) @ [RunningWait]
     @ fst (pause_step env (other_threads (during_wait env) (snd (run_step env t))))
     @ fst (finish_step (snd (pause_step env (other_threads (during_wait env) (snd (run_step env t))))))"
  by (simp add: running_branch_def wait_step_def split: prod.splits)

lemma running_branch_snd:
  "snd (running_branch env t) =
     snd (finish_step (snd (pause_step env (other_threads (during_wait env) (snd (run_step env t))))))"
  by (simp add: running_branch_def wait_step_def split: prod.splits)

lemma running_branch_count_run: "count_list (fst (running_branch env t)) SystemRun = 1"
  by (simp add: running_branch_fst run_step_fst pause_step_fst finish_step_fst)

lemma running_branch_count_pause: "count_list (fst (running_branch env t)) SystemPause = 1"
  by (simp add: running_branch_fst run_step_fst pause_step_fst finish_step_fst)

lemma running_branch_failed_paused:
  assumes "run_result env \<noteq> Success \<or> pause_result env \<noteq> Success"
    and "keeps_paused (during_wait env)" "keeps_paused (during_pause env)"
  shows "\<not> running (snd (running_branch env t))"
proof (cases "pause_result env \<noteq> Success")
  case True
  then show ?thesis by (simp add: running_branch_snd finish_step_snd pause_step_failed)
next
  case False
  with assms(1) have "run_result env \<noteq> Success" by simp
  then have "\<not> running (snd (run_step env t))" by (rule run_step_failed)
  then have "\<not> running (other_threads (during_wait env) (snd (run_step env t)))"
    using assms(2) by (simp add: keeps_paused_running)
  then show ?thesis
    using assms(3) by (simp add: running_branch_snd finish_step_snd pause_step_keeps_paused)
qed

lemma loop_body_running:
  "running t \<Longrightarrow> loop_body ar env t =
     (fst (running_branch env t), Continue (other_threads (after_body env) (snd (running_branch env t))))"
  by (simp add: loop_body_def split: prod.splits)

lemma cv_wait_from: "snd (cv_wait f ws) = f \<or> snd (cv_wait f ws) \<in> set ws"
proof (induction ws arbitrary: f)
  case Nil
  then show ?case by simp
next
  case (Cons w ws)
  then show ?case using Cons [of w] by auto
qed

lemma cv_wait_pred: "fst (cv_wait f ws) = wait_pred (snd (cv_wait f ws))"
  by (induction ws arbitrary: f) auto

lemma loop_body_idle_events:
  "\<not> running t \<Longrightarrow> fst (loop_body ar env t) = (if exec_step t then [Unimplemented] else [RunningCvWait])"
  by (simp add: loop_body_def split: prod.splits bool.splits)

lemma cv_wait_keeps_paused:
  assumes "\<not> f_running f" "list_all (\<lambda>f. \<not> f_running f) ws"
  shows "\<not> f_running (snd (cv_wait f ws))"
  using cv_wait_from [of f ws] assms by (auto simp: list_all_iff)

lemma loop_body_idle_paused:
  assumes "\<not> running t" "no_resume env" "snd (loop_body ar env t) = Continue t'"
  shows "\<not> running t'"
proof -
  have cv: "\<not> f_running (snd (cv_wait (flags_of t) (cv_wakeups env)))"
    using assms(1,2) by (intro cv_wait_keeps_paused) (simp_all add: flags_of_def no_resume_def)
  show ?thesis
    using assms cv
    by (auto simp: loop_body_def no_resume_def keeps_paused_running
             split: if_splits prod.splits bool.splits)
qed

lemma emu_loop_Continue:
  assumes "\<not> stop_run t" "loop_body ar env t = (evs, Continue t')"
  shows "fst (emu_loop ar t (env # envs)) = evs # fst (emu_loop ar t' envs)"
    and "snd (emu_loop ar t (env # envs)) = snd (emu_loop ar t' envs)"
  using assms by (simp_all split: prod.splits)

lemma idle_never_runs:
  assumes "\<not> running t" "list_all no_resume envs"
  shows "SystemRun \<notin> set (concat (fst (emu_loop ar t envs)))"
  using assms
proof (induction envs arbitrary: t)
  case Nil
  then show ?case by simp
next
  case (Cons env envs)
  obtain evs r where body: "loop_body ar env t = (evs, r)" by (cases "loop_body ar env t")
  have evs: "SystemRun \<notin> set evs"
    using loop_body_idle_events [OF Cons.prems(1), of ar env] body by (auto split: if_splits)
  show ?case
  proof (cases r)
    case (Continue t')
    have "\<not> running t'"
      using loop_body_idle_paused [OF Cons.prems(1), of env ar t'] Cons.prems(2) body Continue
      by simp
    then have "SystemRun \<notin> set (concat (fst (emu_loop ar t' envs)))"
      using Cons.IH Cons.prems(2) by simp
    then show ?thesis using body Continue evs by (simp split: prod.splits)
  next
    case BodyCrashed
    then show ?thesis using body evs by simp
  next
    case (BodyBlocked t')
    then show ?thesis using body evs by simp
  qed
qed

lemma failure_no_retry:
  assumes "running t" "\<not> stop_run t"
    and "run_result env \<noteq> Success \<or> pause_result env \<noteq> Success"
    and "list_all no_resume (env # envs)"
  shows "count_list (concat (fst (emu_loop ar t (env # envs)))) SystemRun = 1"
proof -
  let ?t' = "other_threads (after_body env) (snd (running_branch env t))"
  have "\<not> running (snd (running_branch env t))"
    using assms(3,4) by (intro running_branch_failed_paused) (simp_all add: no_resume_def)
  then have "\<not> running ?t'"
    using assms(4) by (simp add: keeps_paused_running no_resume_def)
  then have "SystemRun \<notin> set (concat (fst (emu_loop ar ?t' envs)))"
    using assms(4) by (intro idle_never_runs) simp_all
  then have "count_list (concat (fst (emu_loop ar ?t' envs))) SystemRun = 0"
    by (simp add: count_list_0_iff)
  then show ?thesis
    using assms(1,2) emu_loop_Continue(1) [OF assms(2) loop_body_running [OF assms(1)], of ar env envs]
    by (simp add: running_branch_count_run)
qed

lemma emu_loop_stop: "stop_run t \<Longrightarrow> emu_loop ar t envs = ([], LoopExited t)"
  by (cases envs) simp_all

lemma emu_loop_Crashed:
  assumes "\<not> stop_run t" "loop_body ar env t = (evs, BodyCrashed)"
  shows "emu_loop ar t (env # envs) = ([evs], LoopCrashed)"
  using assms by simp

lemma emu_loop_Blocked:
  assumes "\<not> stop_run t" "loop_body ar env t = (evs, BodyBlocked t')"
  shows "emu_loop ar t (env # envs) = ([evs], LoopBlocked t')"
  using assms by simp

lemma flags_of_set_flags: "flags_of (set_flags f t) = f"
  by (cases f) (simp add: flags_of_def set_flags_def)

lemma loop_body_no_shutdown: "SystemShutdown \<notin> set (fst (loop_body ar env t))"
  by (cases "running t")
     (simp_all add: loop_body_running loop_body_idle_events running_branch_fst run_step_fst
        pause_step_fst finish_step_fst)

lemma emu_loop_no_shutdown: "\<forall>evs \<in> set (fst (emu_loop ar t envs)). SystemShutdown \<notin> set evs"
proof (induction envs arbitrary: t)
  case Nil
  then show ?case by simp
next
  case (Cons env envs)
  obtain evs r where body: "loop_body ar env t = (evs, r)" by (cases "loop_body ar env t")
  have evs: "SystemShutdown \<notin> set evs"
    using loop_body_no_shutdown [of ar env t] body by simp
  show ?case
  proof (cases "stop_run t")
    case True
    then show ?thesis by (simp add: emu_loop_stop)
  next
    case False
    show ?thesis
    proof (cases r)
      case (Continue t')
      then show ?thesis
        using emu_loop_Continue(1) [OF False, of ar env evs t' envs] body evs Cons.IH [of t']
        by simp
    next
      case BodyCrashed
      then show ?thesis using emu_loop_Crashed [OF False, of ar env evs envs] body evs by simp
    next
      case (BodyBlocked t')
      then show ?thesis using emu_loop_Blocked [OF False, of ar env evs t' envs] body evs by simp
    qed
  qed
qed

lemma loop_body_blocked:
  assumes "loop_body ar env t = (evs, BodyBlocked t')"
  shows "\<not> wait_pred (flags_of t')"
proof -
  from assms have nr: "\<not> running t" "\<not> exec_step t"
    by (auto simp: loop_body_def split: if_splits prod.splits)
  let ?r = "cv_wait (flags_of t) (cv_wakeups env)"
  from assms nr have "fst ?r = False" "t' = set_flags (snd ?r) t"
    by (auto simp: loop_body_def split: prod.splits bool.splits)
  then show ?thesis
    using cv_wait_pred [of "flags_of t" "cv_wakeups env"] by (simp add: flags_of_set_flags)
qed

lemma loop_body_crashed:
  assumes "loop_body ar env t = (evs, BodyCrashed)"
  shows "\<not> ar \<and> evs = [Unimplemented] \<and> \<not> running t \<and> exec_step t"
  using assms by (auto simp: loop_body_def split: if_splits prod.splits bool.splits)

lemma status_ok_Cons: "status_ok ar iters status \<Longrightarrow> status_ok ar (evs # iters) status"
  by (simp add: status_ok_def split: loop_status.splits)

lemma emu_loop_status: "status_ok ar (fst (emu_loop ar t envs)) (snd (emu_loop ar t envs))"
proof (induction envs arbitrary: t)
  case Nil
  then show ?case by (simp add: status_ok_def)
next
  case (Cons env envs)
  obtain evs r where body: "loop_body ar env t = (evs, r)" by (cases "loop_body ar env t")
  show ?case
  proof (cases "stop_run t")
    case True
    then show ?thesis by (simp add: status_ok_def emu_loop_stop)
  next
    case False
    show ?thesis
    proof (cases r)
      case (Continue t')
      then show ?thesis
        using emu_loop_Continue [OF False, of ar env evs t' envs] body Cons.IH [of t']
        by (simp add: status_ok_Cons)
    next
      case BodyCrashed
      then show ?thesis
        using emu_loop_Crashed [OF False, of ar env evs envs] body
          loop_body_crashed [of ar env t evs]
        by (simp add: status_ok_def)
    next
      case (BodyBlocked t')
      then show ?thesis
        using emu_loop_Blocked [OF False, of ar env evs t' envs] body
          loop_body_blocked [of ar env t evs t']
        by (simp add: status_ok_def)
    qed
  qed
qed

lemma run_prologue_no_shutdown: "SystemShutdown \<notin> set (run_prologue env)"
  by (auto simp: run_prologue_def)

lemma count_list_notin: "x \<notin> set xs \<Longrightarrow> count_list xs x = 0"
  by (simp add: count_list_0_iff)

lemma EmuThread_run_fst:
  "fst (EmuThread_run build t env) =
     run_prologue env @ concat (fst (run_loop build t env))
     @ run_epilogue build (snd (run_loop build t env))"
  by (simp add: EmuThread_run_def split: prod.splits)

lemma EmuThread_run_snd: "snd (EmuThread_run build t env) = snd (run_loop build t env)"
  by (simp add: EmuThread_run_def split: prod.splits)

lemma run_loop_no_shutdown: "SystemShutdown \<notin> set (concat (fst (run_loop build t env)))"
  using emu_loop_no_shutdown by (simp add: run_loop_def)

lemma shutdown_count:
  "count_list (fst (EmuThread_run build t env)) SystemShutdown =
     (case snd (EmuThread_run build t env) of LoopExited t' \<Rightarrow> 1 | _ \<Rightarrow> 0)"
proof -
  have "count_list (run_prologue env @ concat (fst (run_loop build t env))) SystemShutdown = 0"
    using run_prologue_no_shutdown [of env] run_loop_no_shutdown [of build t env]
    by (intro count_list_notin) simp
  then show ?thesis
    by (simp add: EmuThread_run_fst EmuThread_run_snd run_epilogue_def split: loop_status.splits)
qed

lemma loop_body_run_iff: "(SystemRun \<in> set (fst (loop_body ar env t))) = running t"
  by (cases "running t")
     (simp_all add: loop_body_running loop_body_idle_events running_branch_fst run_step_fst)

lemma loop_body_left_iff:
  "(Emit DebugModeLeft \<in> set (fst (loop_body ar env t))) = (running t \<and> was_active t)"
  by (cases "running t")
     (simp_all add: loop_body_running loop_body_idle_events running_branch_fst run_step_fst
        pause_step_fst finish_step_fst)

lemma loop_body_entered_iff:
  "(Emit DebugModeEntered \<in> set (fst (loop_body ar env t))) =
     (running t \<and> \<not> stop_run (snd (running_branch env t)))"
  by (cases "running t")
     (simp_all add: loop_body_running loop_body_idle_events running_branch_fst run_step_fst
        pause_step_fst finish_step_fst running_branch_snd finish_step_snd)

lemma running_branch_was_active:
  "was_active (snd (running_branch env t)) = (was_active t \<or> \<not> stop_run (snd (running_branch env t)))"
  by (simp add: running_branch_snd finish_step_snd pause_step_was_active run_step_was_active)

lemma loop_body_was_active:
  assumes "loop_body ar env t = (evs, Continue t')"
  shows "was_active t' = (was_active t \<or> Emit DebugModeEntered \<in> set evs)"
proof (cases "running t")
  case True
  have "evs = fst (loop_body ar env t)" using assms by simp
  then have ev: "(Emit DebugModeEntered \<in> set evs) = (\<not> stop_run (snd (running_branch env t)))"
    using True by (simp add: loop_body_entered_iff)
  have "t' = other_threads (after_body env) (snd (running_branch env t))"
    using assms True by (simp add: loop_body_running)
  then show ?thesis using ev running_branch_was_active [of env t] by simp
next
  case False
  have "evs = fst (loop_body ar env t)" using assms by simp
  then have ev: "Emit DebugModeEntered \<notin> set evs"
    using False by (simp add: loop_body_idle_events)
  have "was_active t' = was_active t"
    using assms False by (auto simp: loop_body_def split: if_splits prod.splits bool.splits)
  then show ?thesis using ev by simp
qed

lemma emu_loop_left_iff:
  assumes "i < length (fst (emu_loop ar t envs))"
    and "SystemRun \<in> set (fst (emu_loop ar t envs) ! i)"
  shows "(Emit DebugModeLeft \<in> set (fst (emu_loop ar t envs) ! i)) =
         (was_active t \<or> (\<exists>j<i. Emit DebugModeEntered \<in> set (fst (emu_loop ar t envs) ! j)))"
  using assms
proof (induction envs arbitrary: t i)
  case Nil
  then show ?case by simp
next
  case (Cons env envs)
  obtain evs r where body: "loop_body ar env t = (evs, r)" by (cases "loop_body ar env t")
  have evs: "evs = fst (loop_body ar env t)" using body by simp
  have ns: "\<not> stop_run t" using Cons.prems(1) by (auto simp: emu_loop_stop)
  have first: "(Emit DebugModeLeft \<in> set evs) = (running t \<and> was_active t)"
    "(SystemRun \<in> set evs) = running t"
    by (simp_all add: evs loop_body_left_iff loop_body_run_iff)
  show ?case
  proof (cases r)
    case (Continue t')
    let ?rest = "fst (emu_loop ar t' envs)"
    have unfold: "fst (emu_loop ar t (env # envs)) = evs # ?rest"
      using emu_loop_Continue(1) [OF ns, of ar env evs t' envs] body Continue by simp
    have wa: "was_active t' = (was_active t \<or> Emit DebugModeEntered \<in> set evs)"
      using loop_body_was_active [of ar env t evs t'] body Continue by simp
    show ?thesis
    proof (cases i)
      case 0
      then show ?thesis using Cons.prems(2) unfold first by simp
    next
      case (Suc k)
      have k: "k < length ?rest" "SystemRun \<in> set (?rest ! k)"
        using Cons.prems unfold Suc by simp_all
      have "(Emit DebugModeLeft \<in> set (?rest ! k)) =
            (was_active t' \<or> (\<exists>j<k. Emit DebugModeEntered \<in> set (?rest ! j)))"
        using Cons.IH [OF k] .
      also have "\<dots> = (was_active t \<or> (\<exists>j<Suc k. Emit DebugModeEntered \<in> set ((evs # ?rest) ! j)))"
        unfolding wa by (auto simp: less_Suc_eq_0_disj)
      finally show ?thesis using unfold Suc by simp
    qed
  next
    case BodyCrashed
    then show ?thesis
      using emu_loop_Crashed [OF ns, of ar env evs envs] body Cons.prems first by simp
  next
    case (BodyBlocked t')
    then show ?thesis
      using emu_loop_Blocked [OF ns, of ar env evs t' envs] body Cons.prems first by simp
  qed
qed

lemma emu_loop_entered_runs:
  "\<forall>evs \<in> set (fst (emu_loop ar t envs)). Emit DebugModeEntered \<in> set evs \<longrightarrow> SystemRun \<in> set evs"
proof (induction envs arbitrary: t)
  case Nil
  then show ?case by simp
next
  case (Cons env envs)
  obtain evs r where body: "loop_body ar env t = (evs, r)" by (cases "loop_body ar env t")
  have evs: "Emit DebugModeEntered \<in> set evs \<longrightarrow> SystemRun \<in> set evs"
    using loop_body_entered_iff [of ar env t] loop_body_run_iff [of ar env t] body by simp
  show ?case
  proof (cases "stop_run t")
    case True
    then show ?thesis by (simp add: emu_loop_stop)
  next
    case False
    show ?thesis
    proof (cases r)
      case (Continue t')
      then show ?thesis
        using emu_loop_Continue(1) [OF False, of ar env evs t' envs] body evs Cons.IH [of t']
        by simp
    next
      case BodyCrashed
      then show ?thesis using emu_loop_Crashed [OF False, of ar env evs envs] body evs by simp
    next
      case (BodyBlocked t')
      then show ?thesis using emu_loop_Blocked [OF False, of ar env evs t' envs] body evs by simp
    qed
  qed
qed

lemma sum_active_eq:
  "sum_active ops tps (acc, n) =
     (foldl (point_add ops) acc (map tp_pos (filter is_active tps)),
      n + word_of_nat (length (filter is_active tps)))"
  by (induction tps arbitrary: acc n) simp_all

lemma sint_small: "k < 2 ^ 31 \<Longrightarrow> sint (word_of_nat k :: 32 word) = int k"
  by (simp add: signed_of_nat signed_take_bit_int_eq_self)

lemma active_count:
  assumes "length tps < 2 ^ 31"
  shows "sint (snd (sum_active ops tps (acc, 0))) = int (length (filter is_active tps))"
proof -
  have "length (filter is_active tps) \<le> length tps" by simp
  then have "length (filter is_active tps) < 2 ^ 31" using assms by linarith
  then show ?thesis by (simp add: sum_active_eq sint_small)
qed

lemma active_bits:
  "is_active tp =
     (tp_state tp AND TouchPointPressed \<noteq> 0 \<or> tp_state tp AND TouchPointMoved \<noteq> 0
      \<or> tp_state tp AND TouchPointStationary \<noteq> 0)"
  unfolding is_active_def by (simp add: bit.conj_disj_distrib or_eq_0_iff)

lemma released_inactive: "tp_state tp = TouchPointReleased \<Longrightarrow> \<not> is_active tp"
  by (simp add: is_active_def TouchPointPressed_def TouchPointMoved_def
      TouchPointStationary_def TouchPointReleased_def)

lemma touch_update_mean_active:
  assumes "length tps < 2 ^ 31"
  shows "TouchUpdateEvent ops w tps =
     (let (x, y) = ScaleTouch ops w (mean_points ops (map tp_pos (filter is_active tps)))
      in [TouchMoved x y])"
proof -
  have "length (filter is_active tps) \<le> length tps" by simp
  then have "length (filter is_active tps) < 2 ^ 31" using assms by linarith
  then show ?thesis
    by (simp add: TouchUpdateEvent_def sum_active_eq sint_small mean_points_def)
qed

lemma divisor_nonzero_iff:
  assumes "length tps < 2 ^ 31"
  shows "(snd (sum_active ops tps (acc, 0)) \<noteq> 0) = (\<exists>tp \<in> set tps. is_active tp)"
proof -
  have "(snd (sum_active ops tps (acc, 0)) = 0) = (sint (snd (sum_active ops tps (acc, 0))) = 0)"
    by (rule signed_eq_0_iff [symmetric])
  also have "\<dots> = (length (filter is_active tps) = 0)"
    using active_count [OF assms, of ops acc] by simp
  also have "\<dots> = (\<not> (\<exists>tp \<in> set tps. is_active tp))"
    by (simp add: filter_empty_conv)
  finally show ?thesis by simp
qed

lemma unsupported_of_Cons:
  "unsupported_of ((n, s) # exts) = (if s = 0 then [n] else []) @ unsupported_of exts"
  by (simp add: unsupported_of_def)

lemma unsupported_of_Nil: "unsupported_of [] = []"
  by (simp add: unsupported_of_def)

lemma GetUnsupported_eq:
  "snd (GetUnsupportedGLExtensions env) = unsupported_of (required_extensions env)"
  unfolding GetUnsupportedGLExtensions_def required_extensions_def Let_def snd_conv
    unsupported_of_Cons unsupported_of_Nil
  by simp

lemma GetUnsupported_log:
  "fst (GetUnsupportedGLExtensions env) =
     map (\<lambda>ext. LogCritical (''Unsupported GL extension: '' @ ext))
       (snd (GetUnsupportedGLExtensions env))"
  by (simp add: GetUnsupportedGLExtensions_def Let_def)

lemma unsupported_of_empty:
  "(unsupported_of exts = []) = (\<forall>(name, supported) \<in> set exts. supported \<noteq> 0)"
  by (auto simp: unsupported_of_def filter_empty_conv)

lemma log_no_glad: "GladLoadGL \<notin> set (fst (GetUnsupportedGLExtensions env))"
  by (auto simp: GetUnsupported_log)

lemma log_no_dialog: "filter is_dialog (fst (GetUnsupportedGLExtensions env)) = []"
  by (auto simp: GetUnsupported_log filter_empty_conv is_dialog_def)

lemma LoadOpenGL_result:
  assumes "LoadOpenGL cfg env w = Some (evs, ok)"
  shows "(\<not> ok) = (\<not> glad_loaded env \<or> unsupported_of (required_extensions env) \<noteq> [])"
  using assms GetUnsupported_eq [of env]
  by (auto simp: LoadOpenGL_def Let_def split: option.splits if_splits prod.splits)

lemma LoadOpenGL_defined:
  "(LoadOpenGL cfg env w = None) = (CreateSharedContext cfg w = None)"
  by (auto simp: LoadOpenGL_def Let_def split: option.splits if_splits prod.splits)

lemma LoadOpenGL_one_load:
  assumes "LoadOpenGL cfg env w = Some (evs, ok)"
  shows "count_list evs GladLoadGL = 1"
  using assms log_no_glad [of env]
  by (auto simp: LoadOpenGL_def Let_def count_list_0_iff split: option.splits if_splits prod.splits)

lemma LoadOpenGL_dialogs:
  assumes "LoadOpenGL cfg env w = Some (evs, ok)"
  shows "length (filter is_dialog evs) = (if ok then 0 else 1)"
  using assms log_no_dialog [of env]
  by (auto simp: LoadOpenGL_def Let_def is_dialog_def split: option.splits if_splits prod.splits)

lemma log_no_frame: "FirstFrameDisplayed \<notin> set (fst (GetUnsupportedGLExtensions env))"
  by (auto simp: GetUnsupported_log)

lemma LoadOpenGL_no_frame:
  assumes "LoadOpenGL cfg env w = Some (evs, ok)"
  shows "FirstFrameDisplayed \<notin> set evs"
  using assms log_no_frame [of env]
  by (auto simp: LoadOpenGL_def Let_def split: option.splits if_splits prod.splits)

lemma Initialize_backend:
  assumes "(case renderer_backend cfg of OpenGL \<Rightarrow> InitializeOpenGL cfg env w
            | Vulkan \<Rightarrow> InitializeVulkan cfg w) = Some (evs, w', ok)"
  shows "first_frame w' = first_frame w" "screenChanged_connected w' = screenChanged_connected w"
    "FirstFrameDisplayed \<notin> set evs"
  using assms
  by (auto simp: InitializeOpenGL_def InitializeVulkan_def split: RendererBackend.splits if_splits)

lemma InitRenderTarget_first_frame:
  assumes "InitRenderTarget ops cfg env w = Some (evs, w', ok)"
  shows "\<not> first_frame w'" "FirstFrameDisplayed \<notin> set evs"
    "screenChanged_connected w' = screenChanged_connected w"
proof -
  let ?w2 = "(ReleaseRenderTarget w)\<lparr>first_frame := False\<rparr>"
  obtain e1 w3 initialized where
    b: "(case renderer_backend cfg of OpenGL \<Rightarrow> InitializeOpenGL cfg env ?w2
         | Vulkan \<Rightarrow> InitializeVulkan cfg ?w2) = Some (e1, w3, initialized)"
    using assms by (auto simp: InitRenderTarget_def Let_def split: option.splits)
  note f = Initialize_backend [OF b]
  have w3: "\<not> first_frame w3" "screenChanged_connected w3 = screenChanged_connected w"
    using f by (simp_all add: ReleaseRenderTarget_def)
  show "\<not> first_frame w'" "FirstFrameDisplayed \<notin> set evs"
    "screenChanged_connected w' = screenChanged_connected w"
    using assms b w3 f(3)
    by (auto simp: InitRenderTarget_def Let_def OnMinimalClientAreaChangeRequest_def
          OnFramebufferSizeChanged_def
        dest: LoadOpenGL_no_frame
        split: option.splits if_splits prod.splits)
qed

lemma event_no_frame:
  assumes "event ops w ev = Some (evs, r)"
  shows "FirstFrameDisplayed \<notin> set evs"
  using assms
  by (auto simp: event_def TouchBeginEvent_def TouchUpdateEvent_def TouchEndEvent_def Let_def
      split: QEvent.splits list.splits prod.splits)

lemma deliver_first_frame:
  assumes "deliver ops cfg i w = Some (evs, w')" "\<not> is_InitRenderTarget i"
  shows "(FirstFrameDisplayed \<in> set evs) = (i = CallPollEvents \<and> \<not> first_frame w)"
    and "first_frame w' = (first_frame w \<or> i = CallPollEvents)"
proof -
  have "(FirstFrameDisplayed \<in> set evs) = (i = CallPollEvents \<and> \<not> first_frame w)
        \<and> first_frame w' = (first_frame w \<or> i = CallPollEvents)"
  proof (cases i)
    case CallPollEvents
    then show ?thesis using assms by (auto simp: deliver_def PollEvents_def split: if_splits)
  next
    case (CallInitRenderTarget env)
    then show ?thesis using assms(2) by (simp add: is_InitRenderTarget_def)
  next
    case CallReleaseRenderTarget
    then show ?thesis using assms by (auto simp: deliver_def ReleaseRenderTarget_def)
  next
    case (QtResize a b)
    then show ?thesis
      using assms by (auto simp: deliver_def resizeEvent_def OnFramebufferSizeChanged_def Let_def)
  next
    case QtShow
    then show ?thesis using assms by (auto simp: deliver_def showEvent_def)
  next
    case (QtScreenChanged r)
    then show ?thesis
      using assms
      by (auto simp: deliver_def screenChanged_def OnFramebufferSizeChanged_def Let_def
          split: if_splits)
  next
    case (QtMousePress ev)
    then show ?thesis
      using assms by (auto simp: deliver_def mousePressEvent_def split: if_splits prod.splits)
  next
    case (QtMouseMove ev)
    then show ?thesis
      using assms by (auto simp: deliver_def mouseMoveEvent_def split: if_splits prod.splits)
  next
    case (QtMouseRelease ev)
    then show ?thesis
      using assms by (auto simp: deliver_def mouseReleaseEvent_def split: if_splits)
  next
    case (QtEvent ev)
    then show ?thesis
      using assms event_no_frame [of ops w ev] by (auto simp: deliver_def)
  qed
  then show "(FirstFrameDisplayed \<in> set evs) = (i = CallPollEvents \<and> \<not> first_frame w)"
    and "first_frame w' = (first_frame w \<or> i = CallPollEvents)" by simp_all
qed

lemma deliver_all_Cons:
  assumes "deliver_all ops cfg (i # ins) w = Some (outs, w'')"
  obtains evs w' rest where "deliver ops cfg i w = Some (evs, w')"
    "deliver_all ops cfg ins w' = Some (rest, w'')" "outs = evs # rest"
  using assms by (auto split: option.splits)

lemma deliver_all_length:
  "deliver_all ops cfg ins w = Some (outs, w') \<Longrightarrow> length outs = length ins"
proof (induction ins arbitrary: w outs)
  case Nil
  then show ?case by simp
next
  case (Cons i ins)
  from Cons.prems obtain evs w1 rest where
    "deliver_all ops cfg ins w1 = Some (rest, w')" "outs = evs # rest"
    by (rule deliver_all_Cons)
  then show ?case using Cons.IH by simp
qed

lemma deliver_all_first_frame:
  assumes "deliver_all ops cfg ins w = Some (outs, w')"
    and "list_all (\<lambda>i. \<not> is_InitRenderTarget i) ins" "k < length ins"
  shows "(FirstFrameDisplayed \<in> set (outs ! k)) =
         (ins ! k = CallPollEvents \<and> \<not> first_frame w \<and> (\<forall>j<k. ins ! j \<noteq> CallPollEvents))"
  using assms
proof (induction ins arbitrary: w outs k)
  case Nil
  then show ?case by simp
next
  case (Cons i ins)
  from Cons.prems(1) obtain evs w1 rest where
    d: "deliver ops cfg i w = Some (evs, w1)"
    and r: "deliver_all ops cfg ins w1 = Some (rest, w')" and o: "outs = evs # rest"
    by (rule deliver_all_Cons)
  have ni: "\<not> is_InitRenderTarget i" using Cons.prems(2) by simp
  note step = deliver_first_frame [OF d ni]
  show ?case
  proof (cases k)
    case 0
    then show ?thesis using step(1) o by simp
  next
    case (Suc m)
    have "(FirstFrameDisplayed \<in> set (rest ! m)) =
          (ins ! m = CallPollEvents \<and> \<not> first_frame w1 \<and> (\<forall>j<m. ins ! j \<noteq> CallPollEvents))"
      using Cons.IH [OF r, of m] Cons.prems(2,3) Suc by simp
    also have "\<dots> = (ins ! m = CallPollEvents \<and> \<not> first_frame w
                      \<and> (\<forall>j<Suc m. (i # ins) ! j \<noteq> CallPollEvents))"
      unfolding step(2) by (auto simp: less_Suc_eq_0_disj)
    finally show ?thesis using o Suc by simp
  qed
qed

lemma deliver_connected:
  assumes "deliver ops cfg i w = Some (evs, w')"
  shows "screenChanged_connected w' = (screenChanged_connected w \<or> i = QtShow)"
proof (cases i)
  case (CallInitRenderTarget env)
  then obtain ok where "InitRenderTarget ops cfg env w = Some (evs, w', ok)"
    using assms by (auto simp: deliver_def)
  then show ?thesis using InitRenderTarget_first_frame(3) CallInitRenderTarget by blast
qed (use assms in \<open>auto simp: deliver_def PollEvents_def ReleaseRenderTarget_def showEvent_def
        Let_def split: if_splits\<close>)

lemma deliver_all_connected:
  assumes "deliver_all ops cfg ins w = Some (outs, w')"
  shows "screenChanged_connected w' = (screenChanged_connected w \<or> QtShow \<in> set ins)"
  using assms
proof (induction ins arbitrary: w outs)
  case Nil
  then show ?case by simp
next
  case (Cons i ins)
  from Cons.prems(1) obtain evs w1 rest where
    d: "deliver ops cfg i w = Some (evs, w1)"
    and r: "deliver_all ops cfg ins w1 = Some (rest, w')"
    by (rule deliver_all_Cons)
  show ?case using Cons.IH [OF r] deliver_connected [OF d] by auto
qed

section \<open>Properties of the run-control loop\<close>

text \<open>
  C1. In the run-control loop, a non-success result of \<open>Run()\<close> or of \<open>Pause()\<close> is
  followed at once by \<open>SetRunning(false)\<close> and by the signal \<open>ErrorThrown\<close> with that
  result and the status details, and leaves the running flag and the guard flag clear.
  The loop never calls \<open>Run()\<close> again by itself: one iteration calls it once, and an
  execution that begins with a failed iteration, in which no other thread sets the
  running flag afterwards, calls it exactly once.
\<close>

theorem c1_failure_stops_without_retry:
  "(running t \<longrightarrow>
      fst (loop_body ar env t) =
        (if was_active t then [Emit DebugModeLeft] else [])
        @ [SystemRun]
        @ (if run_result env \<noteq> Success
           then [CallSetRunning False, Emit (ErrorThrown (run_result env) (run_details env))]
           else [])
        @ [RunningWait, SystemPause]
        @ (if pause_result env \<noteq> Success
           then [CallSetRunning False, Emit (ErrorThrown (pause_result env) (pause_details env))]
           else [])
        @ (if stop_run (snd (running_branch env t)) then [] else [Emit DebugModeEntered]))
   \<and> (run_result env \<noteq> Success \<longrightarrow>
        \<not> running (snd (run_step env t)) \<and> \<not> running_guard (snd (run_step env t)))
   \<and> (pause_result env \<noteq> Success \<longrightarrow>
        \<not> running (snd (pause_step env t)) \<and> \<not> running_guard (snd (pause_step env t)))
   \<and> (running t \<and> \<not> stop_run t
        \<and> (run_result env \<noteq> Success \<or> pause_result env \<noteq> Success)
        \<and> list_all no_resume (env # envs) \<longrightarrow>
        count_list (concat (fst (emu_loop ar t (env # envs)))) SystemRun = 1)"
proof -
  have trace: "running t \<Longrightarrow> fst (loop_body ar env t) =
        (if was_active t then [Emit DebugModeLeft] else [])
        @ [SystemRun]
        @ (if run_result env \<noteq> Success
           then [CallSetRunning False, Emit (ErrorThrown (run_result env) (run_details env))]
           else [])
        @ [RunningWait, SystemPause]
        @ (if pause_result env \<noteq> Success
           then [CallSetRunning False, Emit (ErrorThrown (pause_result env) (pause_details env))]
           else [])
        @ (if stop_run (snd (running_branch env t)) then [] else [Emit DebugModeEntered])"
    by (simp add: loop_body_running running_branch_fst run_step_fst pause_step_fst
        finish_step_fst running_branch_snd finish_step_snd)
  show ?thesis
    using trace run_step_failed [of env t] pause_step_failed [of env t]
      failure_no_retry [of t env envs ar]
    by blast
qed

theorem c1_failure_stops_without_retry_witness:
  "running started \<and> \<not> stop_run started
   \<and> run_result both_fail_env \<noteq> Success \<and> pause_result both_fail_env \<noteq> Success
   \<and> list_all no_resume [both_fail_env, quiet_env]
   \<and> fst (loop_body False both_fail_env started) =
       [SystemRun, CallSetRunning False, Emit (ErrorThrown (ErrorStatus 3) ''run failed''),
        RunningWait, SystemPause, CallSetRunning False,
        Emit (ErrorThrown (ErrorStatus 4) ''pause failed''), Emit DebugModeEntered]
   \<and> \<not> running (snd (run_step both_fail_env started))
   \<and> \<not> running_guard (snd (run_step both_fail_env started))
   \<and> \<not> running (snd (pause_step both_fail_env started))
   \<and> \<not> running_guard (snd (pause_step both_fail_env started))
   \<and> count_list (concat (fst (emu_loop False started [both_fail_env, quiet_env]))) SystemRun = 1"
proof -
  have h: "running started" "\<not> stop_run started"
    "run_result both_fail_env \<noteq> Success" "pause_result both_fail_env \<noteq> Success"
    "list_all no_resume [both_fail_env, quiet_env]"
    "was_active started = False"
    "run_details both_fail_env = ''run failed''" "run_result both_fail_env = ErrorStatus 3"
    "pause_details both_fail_env = ''pause failed''" "pause_result both_fail_env = ErrorStatus 4"
    by (simp_all add: started_def both_fail_env_def quiet_env_def no_resume_def keeps_paused_def)
  have s: "\<not> stop_run (snd (running_branch both_fail_env started))"
    by (simp add: running_branch_snd finish_step_snd pause_step_def run_step_def on_failure_def
        SetRunning_def started_def both_fail_env_def quiet_env_def)
  show ?thesis
    using c1_failure_stops_without_retry [of started False both_fail_env "[quiet_env]"] h s
    by simp
qed

text \<open>
  C2. However an execution of \<open>EmuThread::run\<close> went, at the end of what the rest of the
  program did it stands in one of four ways. It has left the loop: then the stop flag was
  set and \<open>system.Shutdown()\<close> has been called exactly once, whether or not \<open>Run()\<close> or
  \<open>Pause()\<close> had failed. Or it was aborted in \<open>UNIMPLEMENTED()\<close>, or it is blocked on
  the condition variable, or it is at the loop condition: then the stop flag is clear
  where the loop last read it and \<open>Shutdown()\<close> has not been called. A set stop flag at
  the loop condition ends the loop.
\<close>

theorem c2_shutdown_exactly_once:
  "(case snd (EmuThread_run build t env) of
      LoopExited t' \<Rightarrow>
        stop_run t' \<and> count_list (fst (EmuThread_run build t env)) SystemShutdown = 1
    | LoopCrashed \<Rightarrow>
        \<not> assert_returns build \<and> Unimplemented \<in> set (fst (EmuThread_run build t env))
        \<and> count_list (fst (EmuThread_run build t env)) SystemShutdown = 0
    | LoopBlocked t' \<Rightarrow>
        \<not> stop_run t' \<and> count_list (fst (EmuThread_run build t env)) SystemShutdown = 0
    | LoopPending t' \<Rightarrow>
        \<not> stop_run t' \<and> count_list (fst (EmuThread_run build t env)) SystemShutdown = 0)
   \<and> (stop_run s \<longrightarrow> emu_loop ar s envs = ([], LoopExited s))"
proof -
  have ok: "status_ok (assert_returns build) (fst (run_loop build t env)) (snd (run_loop build t env))"
    using emu_loop_status by (simp add: run_loop_def)
  have unimpl: "[Unimplemented] \<in> set (fst (run_loop build t env))
      \<Longrightarrow> Unimplemented \<in> set (fst (EmuThread_run build t env))"
    by (force simp: EmuThread_run_fst)
  show ?thesis
    using ok unimpl shutdown_count [of build t env] emu_loop_stop [of s ar envs]
    by (auto simp: status_ok_def wait_pred_def flags_of_def EmuThread_run_snd
             split: loop_status.splits)
qed

theorem c2_shutdown_exactly_once_witness:
  "stop_run (started\<lparr>stop_run := True\<rparr>)
   \<and> snd (EmuThread_run debug_build started_thread failing_then_stopped) =
       LoopExited \<lparr>exec_step = False, running = False, stop_run = True, running_guard = False,
                   was_active = False\<rparr>
   \<and> Emit (ErrorThrown (ErrorStatus 3) ''run failed'')
       \<in> set (fst (EmuThread_run debug_build started_thread failing_then_stopped))
   \<and> count_list (fst (EmuThread_run debug_build started_thread failing_then_stopped))
       SystemShutdown = 1
   \<and> emu_loop False (started\<lparr>stop_run := True\<rparr>) [quiet_env] =
       ([], LoopExited (started\<lparr>stop_run := True\<rparr>))"
proof -
  have st: "snd (EmuThread_run debug_build started_thread failing_then_stopped) =
       LoopExited \<lparr>exec_step = False, running = False, stop_run = True, running_guard = False,
                   was_active = False\<rparr>"
    by code_simp
  have err: "Emit (ErrorThrown (ErrorStatus 3) ''run failed'')
       \<in> set (fst (EmuThread_run debug_build started_thread failing_then_stopped))"
    by code_simp
  show ?thesis
    using c2_shutdown_exactly_once [of debug_build started_thread failing_then_stopped
        "started\<lparr>stop_run := True\<rparr>" False "[quiet_env]"] st err
    by simp
qed

text \<open>
  C3 as stated: when the loop sees a step request while not running, it makes a
  single-stepping transition and goes back to waiting, without tripping an assertion or
  aborting. It fails at a thread with only the step flag set: the iteration reaches
  \<open>UNIMPLEMENTED()\<close>, whether the macro returns or not.
\<close>

theorem c3_step_request_counterexample:
  "\<not> handles_step False quiet_env step_requested \<and> \<not> handles_step True quiet_env step_requested"
  by (simp add: handles_step_def loop_body_def step_requested_def)

text \<open>
  C3 as amended: the loop does not implement single-stepping. When it sees a step request
  while not running (and no stop request), the iteration does nothing but reach
  \<open>UNIMPLEMENTED()\<close>: no call into the core, no signal, no change of the flags by this
  thread. If the macro does not return, the thread ends there. If it returns and no other
  thread writes the flags, every later iteration does the same and the loop never goes
  back to waiting.
\<close>

theorem c3_step_request_unimplemented:
  assumes "\<not> stop_run t" "\<not> running t" "exec_step t"
  shows "fst (loop_body ar env t) = [Unimplemented]
    \<and> snd (loop_body ar env t) =
        (if ar then Continue (other_threads (after_body env) t) else BodyCrashed)
    \<and> emu_loop False t (env # envs) = ([[Unimplemented]], LoopCrashed)
    \<and> (list_all (\<lambda>e. after_body e = None) envs \<longrightarrow>
        emu_loop True t envs = (replicate (length envs) [Unimplemented], LoopPending t))"
proof -
  have body: "loop_body ar env t =
      ([Unimplemented], if ar then Continue (other_threads (after_body env) t) else BodyCrashed)"
    using assms by (simp add: loop_body_def)
  have crash: "emu_loop False t (env # envs) = ([[Unimplemented]], LoopCrashed)"
    using assms by (simp add: loop_body_def)
  have spin: "list_all (\<lambda>e. after_body e = None) envs \<Longrightarrow>
        emu_loop True t envs = (replicate (length envs) [Unimplemented], LoopPending t)"
    using assms by (induction envs) (simp_all add: loop_body_def)
  show ?thesis using body crash spin by simp
qed

theorem c3_step_request_unimplemented_witness:
  "\<not> stop_run step_requested \<and> \<not> running step_requested \<and> exec_step step_requested
   \<and> list_all (\<lambda>e. after_body e = None) [quiet_env, quiet_env]
   \<and> fst (loop_body True quiet_env step_requested) = [Unimplemented]
   \<and> snd (loop_body True quiet_env step_requested) = Continue step_requested
   \<and> emu_loop False step_requested [quiet_env, quiet_env] = ([[Unimplemented]], LoopCrashed)
   \<and> emu_loop True step_requested [quiet_env, quiet_env] =
       ([[Unimplemented], [Unimplemented]], LoopPending step_requested)"
proof -
  have h: "\<not> stop_run step_requested" "\<not> running step_requested" "exec_step step_requested"
    by (simp_all add: step_requested_def)
  have q: "after_body quiet_env = None" by (simp add: quiet_env_def)
  show ?thesis
    using c3_step_request_unimplemented [OF h, of True quiet_env "[quiet_env]"]
      c3_step_request_unimplemented [OF h, of True quiet_env "[quiet_env, quiet_env]"] h q
    by (simp add: numeral_2_eq_2)
qed

text \<open>
  C4. In an execution of the loop, an iteration that enters the Running state (it calls
  \<open>Run()\<close>) emits \<open>DebugModeLeft\<close> if and only if an earlier iteration emitted
  \<open>DebugModeEntered\<close>, which an iteration does exactly when it went through its
  Run/Pause cycle and found the stop flag clear at its end. The first iteration that
  enters the Running state never emits \<open>DebugModeLeft\<close>.
\<close>

theorem c4_debug_mode_left_iff_paused_before:
  assumes "i < length (fst (run_loop build t env))"
    and "SystemRun \<in> set (fst (run_loop build t env) ! i)"
  shows "(Emit DebugModeLeft \<in> set (fst (run_loop build t env) ! i)) =
           (\<exists>j<i. Emit DebugModeEntered \<in> set (fst (run_loop build t env) ! j))
    \<and> ((\<forall>j<i. SystemRun \<notin> set (fst (run_loop build t env) ! j))
           \<longrightarrow> Emit DebugModeLeft \<notin> set (fst (run_loop build t env) ! i))
    \<and> (Emit DebugModeEntered \<in> set (fst (loop_body ar e s))) =
           (running s \<and> \<not> stop_run (snd (running_branch e s)))"
proof -
  have main: "(Emit DebugModeLeft \<in> set (fst (run_loop build t env) ! i)) =
           (\<exists>j<i. Emit DebugModeEntered \<in> set (fst (run_loop build t env) ! j))"
    using assms unfolding run_loop_def by (subst emu_loop_left_iff) simp_all
  have "\<And>j. j < i \<Longrightarrow> Emit DebugModeEntered \<in> set (fst (run_loop build t env) ! j)
           \<Longrightarrow> SystemRun \<in> set (fst (run_loop build t env) ! j)"
  proof -
    fix j assume "j < i" and e: "Emit DebugModeEntered \<in> set (fst (run_loop build t env) ! j)"
    then have "fst (run_loop build t env) ! j \<in> set (fst (run_loop build t env))"
      using assms(1) by simp
    then show "SystemRun \<in> set (fst (run_loop build t env) ! j)"
      using e emu_loop_entered_runs unfolding run_loop_def by blast
  qed
  then have first: "(\<forall>j<i. SystemRun \<notin> set (fst (run_loop build t env) ! j))
           \<longrightarrow> Emit DebugModeLeft \<notin> set (fst (run_loop build t env) ! i)"
    using main by blast
  show ?thesis using main first loop_body_entered_iff [of ar e s] by simp
qed

theorem c4_debug_mode_left_iff_paused_before_witness:
  "1 < length (fst (run_loop debug_build started_thread paused_then_resumed))
   \<and> SystemRun \<in> set (fst (run_loop debug_build started_thread paused_then_resumed) ! 0)
   \<and> SystemRun \<in> set (fst (run_loop debug_build started_thread paused_then_resumed) ! 1)
   \<and> Emit DebugModeLeft \<notin> set (fst (run_loop debug_build started_thread paused_then_resumed) ! 0)
   \<and> Emit DebugModeEntered \<in> set (fst (run_loop debug_build started_thread paused_then_resumed) ! 0)
   \<and> Emit DebugModeLeft \<in> set (fst (run_loop debug_build started_thread paused_then_resumed) ! 1)"
proof -
  have iters: "fst (run_loop debug_build started_thread paused_then_resumed) =
      [[SystemRun, RunningWait, SystemPause, Emit DebugModeEntered],
       [Emit DebugModeLeft, SystemRun, RunningWait, SystemPause, Emit DebugModeEntered]]"
    by code_simp
  have h0: "0 < length (fst (run_loop debug_build started_thread paused_then_resumed))"
    and h1: "1 < length (fst (run_loop debug_build started_thread paused_then_resumed))"
    and r0: "SystemRun \<in> set (fst (run_loop debug_build started_thread paused_then_resumed) ! 0)"
    and r1: "SystemRun \<in> set (fst (run_loop debug_build started_thread paused_then_resumed) ! 1)"
    by (simp_all add: iters)
  show ?thesis
    using c4_debug_mode_left_iff_paused_before [OF h0 r0, of False quiet_env started]
      c4_debug_mode_left_iff_paused_before [OF h1 r1, of False quiet_env started] h1 r0 r1
    by (simp add: iters)
qed

section \<open>Properties of the render-surface widget\<close>

text \<open>
  C5 as stated: a touch-update event forwards the scaled arithmetic mean of the positions
  of its touch points. It fails for an event in which one point is pressed at (0, 0) and
  another has just been released at (10, 10), at pixel ratio 1: the widget forwards
  (0, 0), the mean of all the points is (5, 5).
\<close>

theorem c5_touch_mean_counterexample:
  "\<not> forwards_mean_of_all exact_ops plain_window two_fingers"
  by code_simp

text \<open>
  C5 as amended: a touch-begin event forwards, as the press coordinate, the position of
  its first touch point scaled by the device pixel ratio, rounded and clamped at zero. A
  touch-update event forwards, as the move coordinate, the arithmetic mean of the
  positions of its active touch points (those pressed, moved or stationary), scaled the
  same way. The list of touch points of an event has fewer than \<open>2^31\<close> entries.
\<close>

theorem c5_touch_coordinates:
  assumes "length tps < 2 ^ 31"
  shows "event ops w (TouchBegin (tp # tps)) =
           Some (let (x, y) = ScaleTouch ops w (tp_pos tp) in [TouchPressed x y], Some True)
    \<and> event ops w (TouchUpdate tps) =
           Some (let (x, y) = ScaleTouch ops w (mean_points ops (map tp_pos (filter is_active tps)))
                 in [TouchMoved x y], Some True)
    \<and> ScaleTouch ops w p =
           (q_to_u32 ops (std_max ops (q_round ops (q_mul ops (fst p) (devicePixelRatioF w))) (q_zero ops)),
            q_to_u32 ops (std_max ops (q_round ops (q_mul ops (snd p) (devicePixelRatioF w))) (q_zero ops)))"
proof -
  have press: "event ops w (TouchBegin (tp # tps)) =
           Some (let (x, y) = ScaleTouch ops w (tp_pos tp) in [TouchPressed x y], Some True)"
    by (simp add: event_def TouchBeginEvent_def split: prod.splits)
  have move: "event ops w (TouchUpdate tps) =
           Some (let (x, y) = ScaleTouch ops w (mean_points ops (map tp_pos (filter is_active tps)))
                 in [TouchMoved x y], Some True)"
    using touch_update_mean_active [OF assms, of ops w] by (simp add: event_def)
  have scale: "ScaleTouch ops w p =
           (q_to_u32 ops (std_max ops (q_round ops (q_mul ops (fst p) (devicePixelRatioF w))) (q_zero ops)),
            q_to_u32 ops (std_max ops (q_round ops (q_mul ops (snd p) (devicePixelRatioF w))) (q_zero ops)))"
    by (simp add: ScaleTouch_def windowPixelRatio_def Let_def)
  show ?thesis using press move scale by blast
qed

theorem c5_touch_coordinates_witness:
  "length two_fingers < 2 ^ 31
   \<and> event exact_ops plain_window (TouchBegin (\<lparr>tp_state = TouchPointPressed, tp_pos = (3, 4)\<rparr> # two_fingers))
       = Some ([TouchPressed 3 4], Some True)
   \<and> event exact_ops plain_window (TouchUpdate two_fingers) = Some ([TouchMoved 0 0], Some True)
   \<and> mean_points exact_ops (map tp_pos (filter is_active two_fingers)) = (0, 0)
   \<and> ScaleTouch exact_ops (plain_window\<lparr>devicePixelRatioF := 3 / 2\<rparr>) (3, -4) = (5, 0)"
proof -
  have h: "length two_fingers < 2 ^ 31" by (simp add: two_fingers_def)
  have a: "event exact_ops plain_window (TouchUpdate two_fingers) = Some ([TouchMoved 0 0], Some True)"
    by code_simp
  have b: "mean_points exact_ops (map tp_pos (filter is_active two_fingers)) = (0, 0)"
    by code_simp
  have c: "ScaleTouch exact_ops (plain_window\<lparr>devicePixelRatioF := 3 / 2\<rparr>) (3, -4) = (5, 0)"
    by code_simp
  have d: "event exact_ops plain_window
      (TouchBegin (\<lparr>tp_state = TouchPointPressed, tp_pos = (3, 4)\<rparr> # two_fingers))
       = Some ([TouchPressed 3 4], Some True)"
    by code_simp
  show ?thesis
    using c5_touch_coordinates [OF h, of exact_ops plain_window
        "\<lparr>tp_state = TouchPointPressed, tp_pos = (3, 4)\<rparr>" "(3, -4)"] h a b c d
    by simp
qed

text \<open>
  C6. After \<open>InitRenderTarget\<close> (which itself does not emit the signal), and until it is
  called again, whatever else reaches the widget, a call of \<open>PollEvents\<close> emits
  \<open>FirstFrameDisplayed\<close> if and only if it is the first call of \<open>PollEvents\<close>, and
  nothing else emits it.
\<close>

theorem c6_first_frame_one_shot:
  assumes "InitRenderTarget ops cfg env w = Some (evs0, w0, ok)"
    and "deliver_all ops cfg ins w0 = Some (outs, w')"
    and "list_all (\<lambda>i. \<not> is_InitRenderTarget i) ins"
    and "k < length ins"
  shows "FirstFrameDisplayed \<notin> set evs0
    \<and> (FirstFrameDisplayed \<in> set (outs ! k)) =
        (ins ! k = CallPollEvents \<and> (\<forall>j<k. ins ! j \<noteq> CallPollEvents))"
  using InitRenderTarget_first_frame(1,2) [OF assms(1)]
    deliver_all_first_frame [OF assms(2,3,4)]
  by simp

theorem c6_first_frame_one_shot_witness:
  "InitRenderTarget exact_ops vulkan_cfg old_gpu plain_window =
     Some ([SetMinimumSize 1 1, Resize 1280 720, SetMinimumSize 640 360,
            UpdateCurrentFramebufferLayout 1280 720, BackupGeometry],
           plain_window\<lparr>first_frame := False, main_context := Some DummyContext,
                         child_context := None\<rparr>, True)
   \<and> deliver_all exact_ops vulkan_cfg [CallPollEvents, QtShow, CallPollEvents]
       (plain_window\<lparr>first_frame := False, main_context := Some DummyContext,
                      child_context := None\<rparr>) =
     Some ([[FirstFrameDisplayed], [QWidget_showEvent], []],
           plain_window\<lparr>first_frame := True, main_context := Some DummyContext,
                         child_context := None, screenChanged_connected := True\<rparr>)
   \<and> list_all (\<lambda>i. \<not> is_InitRenderTarget i) [CallPollEvents, QtShow, CallPollEvents :: rat window_input]
   \<and> FirstFrameDisplayed \<in> set ([[FirstFrameDisplayed], [QWidget_showEvent], []] ! 0)
   \<and> FirstFrameDisplayed \<notin> set ([[FirstFrameDisplayed], [QWidget_showEvent], []] ! 2)"
proof -
  have i: "InitRenderTarget exact_ops vulkan_cfg old_gpu plain_window =
     Some ([SetMinimumSize 1 1, Resize 1280 720, SetMinimumSize 640 360,
            UpdateCurrentFramebufferLayout 1280 720, BackupGeometry],
           plain_window\<lparr>first_frame := False, main_context := Some DummyContext,
                         child_context := None\<rparr>, True)"
    by code_simp
  have d: "deliver_all exact_ops vulkan_cfg [CallPollEvents, QtShow, CallPollEvents]
       (plain_window\<lparr>first_frame := False, main_context := Some DummyContext,
                      child_context := None\<rparr>) =
     Some ([[FirstFrameDisplayed], [QWidget_showEvent], []],
           plain_window\<lparr>first_frame := True, main_context := Some DummyContext,
                         child_context := None, screenChanged_connected := True\<rparr>)"
    by code_simp
  have n: "list_all (\<lambda>i. \<not> is_InitRenderTarget i) [CallPollEvents, QtShow, CallPollEvents :: rat window_input]"
    by (simp add: is_InitRenderTarget_def)
  show ?thesis
    using c6_first_frame_one_shot [OF i d n, of 0] c6_first_frame_one_shot [OF i d n, of 2] i d n
    by simp
qed

text \<open>
  C7. \<open>LoadOpenGL\<close> returns \<open>false\<close> if and only if \<open>gladLoadGL()\<close> fails or one of the
  nine required extensions is unsupported. When loading succeeds and an extension is
  missing, exactly one dialog is shown, an error dialog whose text is the translated
  message followed by the names of exactly the unsupported extensions, separated by
  \<open><br>\<close>. There is no retry: \<open>gladLoadGL()\<close> is called once and at most one dialog is
  shown, and \<open>InitRenderTarget\<close> with the OpenGL backend returns \<open>true\<close> only when
  loading succeeded and every extension is supported.
\<close>

theorem c7_LoadOpenGL_fails_iff_unsupported:
  assumes "LoadOpenGL cfg env w = Some (evs, ok)"
  shows "(\<not> ok) =
           (\<not> glad_loaded env \<or> (\<exists>(name, supported) \<in> set (required_extensions env). supported = 0))
    \<and> length (required_extensions env) = 9
    \<and> (glad_loaded env \<and> \<not> ok \<longrightarrow>
         filter is_dialog evs =
           [MessageBox_critical (tr cfg ''Error while initializing OpenGL!'')
              (tr cfg unsupported_extensions_message
               @ join ''<br>'' (unsupported_of (required_extensions env)))])
    \<and> count_list evs GladLoadGL = 1
    \<and> length (filter is_dialog evs) = (if ok then 0 else 1)
    \<and> (renderer_backend cfg1 = OpenGL \<and> InitRenderTarget ops cfg1 env1 w1 = Some (evs1, w2, True) \<longrightarrow>
         glad_loaded env1 \<and> unsupported_of (required_extensions env1) = [])"
proof -
  have res: "(\<not> ok) =
      (\<not> glad_loaded env \<or> (\<exists>(name, supported) \<in> set (required_extensions env). supported = 0))"
    using LoadOpenGL_result [OF assms] unsupported_of_empty [of "required_extensions env"]
    by auto
  have nine: "length (required_extensions env) = 9"
    by (simp add: required_extensions_def)
  have dialog: "glad_loaded env \<and> \<not> ok \<longrightarrow>
         filter is_dialog evs =
           [MessageBox_critical (tr cfg ''Error while initializing OpenGL!'')
              (tr cfg unsupported_extensions_message
               @ join ''<br>'' (unsupported_of (required_extensions env)))]"
    using assms log_no_dialog [of env] GetUnsupported_eq [of env]
    by (auto simp: LoadOpenGL_def Let_def is_dialog_def
             split: option.splits if_splits prod.splits)
  have init: "renderer_backend cfg1 = OpenGL \<and> InitRenderTarget ops cfg1 env1 w1 = Some (evs1, w2, True)
      \<longrightarrow> glad_loaded env1 \<and> unsupported_of (required_extensions env1) = []"
    by (auto simp: InitRenderTarget_def Let_def
             dest!: LoadOpenGL_result
             split: option.splits if_splits prod.splits)
  show ?thesis
    using res nine dialog init LoadOpenGL_one_load [OF assms] LoadOpenGL_dialogs [OF assms]
    by simp
qed

theorem c7_LoadOpenGL_fails_iff_unsupported_witness:
  "LoadOpenGL gl_cfg old_gpu plain_window =
     Some ([NewSharedContext OpenGLSharedContext, MakeCurrent, GladLoadGL,
            LogCritical ''Unsupported GL extension: ARB_multi_bind'',
            LogCritical ''Unsupported GL extension: ARB_clip_control'',
            MessageBox_critical ''Error while initializing OpenGL!''
              (unsupported_extensions_message @ ''ARB_multi_bind<br>ARB_clip_control''),
            DoneCurrent], False)
   \<and> glad_loaded old_gpu
   \<and> unsupported_of (required_extensions old_gpu) = [''ARB_multi_bind'', ''ARB_clip_control'']
   \<and> renderer_backend gl_cfg = OpenGL
   \<and> InitRenderTarget exact_ops gl_cfg (old_gpu\<lparr>GLAD_GL_ARB_multi_bind := 1, GLAD_GL_ARB_clip_control := 1\<rparr>) plain_window
       = Some ([SetMinimumSize 1 1, Resize 1280 720, SetMinimumSize 640 360,
                UpdateCurrentFramebufferLayout 1280 720, BackupGeometry,
                NewSharedContext OpenGLSharedContext, MakeCurrent, GladLoadGL, DoneCurrent],
               plain_window\<lparr>first_frame := False\<rparr>, True)
   \<and> unsupported_of (required_extensions (old_gpu\<lparr>GLAD_GL_ARB_multi_bind := 1, GLAD_GL_ARB_clip_control := 1\<rparr>)) = []"
proof -
  have l: "LoadOpenGL gl_cfg old_gpu plain_window =
     Some ([NewSharedContext OpenGLSharedContext, MakeCurrent, GladLoadGL,
            LogCritical ''Unsupported GL extension: ARB_multi_bind'',
            LogCritical ''Unsupported GL extension: ARB_clip_control'',
            MessageBox_critical ''Error while initializing OpenGL!''
              (unsupported_extensions_message @ ''ARB_multi_bind<br>ARB_clip_control''),
            DoneCurrent], False)"
    by code_simp
  have u: "unsupported_of (required_extensions old_gpu) = [''ARB_multi_bind'', ''ARB_clip_control'']"
    by code_simp
  have g: "glad_loaded old_gpu" "renderer_backend gl_cfg = OpenGL"
    by (simp_all add: old_gpu_def gl_cfg_def)
  have i: "InitRenderTarget exact_ops gl_cfg (old_gpu\<lparr>GLAD_GL_ARB_multi_bind := 1, GLAD_GL_ARB_clip_control := 1\<rparr>) plain_window
       = Some ([SetMinimumSize 1 1, Resize 1280 720, SetMinimumSize 640 360,
                UpdateCurrentFramebufferLayout 1280 720, BackupGeometry,
                NewSharedContext OpenGLSharedContext, MakeCurrent, GladLoadGL, DoneCurrent],
               plain_window\<lparr>first_frame := False\<rparr>, True)"
    by code_simp
  show ?thesis
    using c7_LoadOpenGL_fails_iff_unsupported [OF l, of gl_cfg exact_ops
        "old_gpu\<lparr>GLAD_GL_ARB_multi_bind := 1, GLAD_GL_ARB_clip_control := 1\<rparr>" plain_window
        "[SetMinimumSize 1 1, Resize 1280 720, SetMinimumSize 640 360,
          UpdateCurrentFramebufferLayout 1280 720, BackupGeometry,
          NewSharedContext OpenGLSharedContext, MakeCurrent, GladLoadGL, DoneCurrent]"
        "plain_window\<lparr>first_frame := False\<rparr>"]
      l u g i
    by simp
qed

text \<open>
  C8. When Qt delivers a resize event, the widget calls the base handler and then
  recomputes the framebuffer layout, with the widget's width times the device pixel ratio
  and its height times the device pixel ratio, each converted to \<open>u32\<close>. Once a show
  event has been delivered, every screen change does the same recomputation, once.
\<close>

theorem c8_layout_recomputed:
  "deliver ops cfg (QtResize a b) w =
     Some ([QWidget_resizeEvent,
            UpdateCurrentFramebufferLayout
              (q_to_u32 ops (q_mul ops (q_of_int ops a) (devicePixelRatioF w)))
              (q_to_u32 ops (q_mul ops (q_of_int ops b) (devicePixelRatioF w)))],
           w\<lparr>widget_width := a, widget_height := b\<rparr>)
   \<and> (deliver_all ops cfg ins w = Some (outs, w1) \<and> QtShow \<in> set ins \<longrightarrow>
        deliver ops cfg (QtScreenChanged r) w1 =
          Some ([UpdateCurrentFramebufferLayout
                   (q_to_u32 ops (q_mul ops (q_of_int ops (widget_width w1)) r))
                   (q_to_u32 ops (q_mul ops (q_of_int ops (widget_height w1)) r))],
                w1\<lparr>devicePixelRatioF := r\<rparr>))"
proof -
  have resize: "deliver ops cfg (QtResize a b) w =
     Some ([QWidget_resizeEvent,
            UpdateCurrentFramebufferLayout
              (q_to_u32 ops (q_mul ops (q_of_int ops a) (devicePixelRatioF w)))
              (q_to_u32 ops (q_mul ops (q_of_int ops b) (devicePixelRatioF w)))],
           w\<lparr>widget_width := a, widget_height := b\<rparr>)"
    by (simp add: deliver_def resizeEvent_def OnFramebufferSizeChanged_def windowPixelRatio_def
        Let_def)
  have screen: "deliver_all ops cfg ins w = Some (outs, w1) \<and> QtShow \<in> set ins \<longrightarrow>
        deliver ops cfg (QtScreenChanged r) w1 =
          Some ([UpdateCurrentFramebufferLayout
                   (q_to_u32 ops (q_mul ops (q_of_int ops (widget_width w1)) r))
                   (q_to_u32 ops (q_mul ops (q_of_int ops (widget_height w1)) r))],
                w1\<lparr>devicePixelRatioF := r\<rparr>)"
  proof
    assume a: "deliver_all ops cfg ins w = Some (outs, w1) \<and> QtShow \<in> set ins"
    then have "screenChanged_connected w1" using deliver_all_connected [of ops cfg ins w outs w1] by simp
    then show "deliver ops cfg (QtScreenChanged r) w1 =
          Some ([UpdateCurrentFramebufferLayout
                   (q_to_u32 ops (q_mul ops (q_of_int ops (widget_width w1)) r))
                   (q_to_u32 ops (q_mul ops (q_of_int ops (widget_height w1)) r))],
                w1\<lparr>devicePixelRatioF := r\<rparr>)"
      by (simp add: deliver_def screenChanged_def OnFramebufferSizeChanged_def
          windowPixelRatio_def Let_def)
  qed
  show ?thesis using resize screen by simp
qed

theorem c8_layout_recomputed_witness:
  "deliver_all exact_ops vulkan_cfg [QtShow, QtResize 100 50] plain_window =
     Some ([[QWidget_showEvent], [QWidget_resizeEvent, UpdateCurrentFramebufferLayout 100 50]],
           plain_window\<lparr>widget_width := 100, widget_height := 50, screenChanged_connected := True\<rparr>)
   \<and> QtShow \<in> set [QtShow, QtResize 100 50 :: rat window_input]
   \<and> deliver exact_ops vulkan_cfg (QtScreenChanged 2)
       (plain_window\<lparr>widget_width := 100, widget_height := 50, screenChanged_connected := True\<rparr>) =
     Some ([UpdateCurrentFramebufferLayout 200 100],
           plain_window\<lparr>widget_width := 100, widget_height := 50, screenChanged_connected := True,
                         devicePixelRatioF := 2\<rparr>)
   \<and> deliver exact_ops vulkan_cfg (QtResize 100 50) plain_window =
     Some ([QWidget_resizeEvent, UpdateCurrentFramebufferLayout 100 50],
           plain_window\<lparr>widget_width := 100, widget_height := 50\<rparr>)"
proof -
  have d: "deliver_all exact_ops vulkan_cfg [QtShow, QtResize 100 50] plain_window =
     Some ([[QWidget_showEvent], [QWidget_resizeEvent, UpdateCurrentFramebufferLayout 100 50]],
           plain_window\<lparr>widget_width := 100, widget_height := 50, screenChanged_connected := True\<rparr>)"
    by code_simp
  have s: "QtShow \<in> set [QtShow, QtResize 100 50 :: rat window_input]" by simp
  have e: "q_to_u32 exact_ops (q_mul exact_ops (q_of_int exact_ops 100) 2) = 200"
    "q_to_u32 exact_ops (q_mul exact_ops (q_of_int exact_ops 50) 2) = 100"
    "q_to_u32 exact_ops (q_mul exact_ops (q_of_int exact_ops 100) 1) = 100"
    "q_to_u32 exact_ops (q_mul exact_ops (q_of_int exact_ops 50) 1) = 50"
    by code_simp+
  have p: "devicePixelRatioF plain_window = 1" by (simp add: plain_window_def)
  show ?thesis
    using c8_layout_recomputed [of exact_ops vulkan_cfg 100 50 plain_window
        "[QtShow, QtResize 100 50]" _ _ 2] d s e p
    by simp
qed

text \<open>
  C9. In \<open>TouchUpdateEvent\<close> only the touch points whose state has the pressed, moved or
  stationary flag add to the position sum and to \<open>active_points\<close>, and the sum is
  divided by \<open>active_points\<close> without any test. For an event with fewer than \<open>2^31\<close>
  touch points, \<open>active_points\<close> is the number of active points: it is non-zero exactly
  when the event has an active point, and zero when every point is in another state, for
  example released; the widget then divides the zero sum by zero.
\<close>

theorem c9_divides_by_active_count:
  assumes "length tps < 2 ^ 31"
  shows "fst (sum_active ops tps ((q_zero ops, q_zero ops), 0)) =
           foldl (point_add ops) (q_zero ops, q_zero ops) (map tp_pos (filter is_active tps))
    \<and> sint (snd (sum_active ops tps ((q_zero ops, q_zero ops), 0))) =
           int (length (filter is_active tps))
    \<and> (snd (sum_active ops tps ((q_zero ops, q_zero ops), 0)) \<noteq> 0) = (\<exists>tp \<in> set tps. is_active tp)
    \<and> TouchUpdateEvent ops w tps =
           (let (x, y) = ScaleTouch ops w
                   (point_div ops (fst (sum_active ops tps ((q_zero ops, q_zero ops), 0)))
                      (q_of_int ops (sint (snd (sum_active ops tps ((q_zero ops, q_zero ops), 0))))))
            in [TouchMoved x y])
    \<and> ((\<forall>tp \<in> set tps. \<not> is_active tp) \<longrightarrow>
         TouchUpdateEvent ops w tps =
           (let (x, y) = ScaleTouch ops w
                   (point_div ops (q_zero ops, q_zero ops) (q_of_int ops 0))
            in [TouchMoved x y]))
    \<and> is_active tp =
           (tp_state tp AND TouchPointPressed \<noteq> 0 \<or> tp_state tp AND TouchPointMoved \<noteq> 0
            \<or> tp_state tp AND TouchPointStationary \<noteq> 0)
    \<and> (tp_state tp = TouchPointReleased \<longrightarrow> \<not> is_active tp)"
proof -
  have unguarded: "TouchUpdateEvent ops w tps =
           (let (x, y) = ScaleTouch ops w
                   (point_div ops (fst (sum_active ops tps ((q_zero ops, q_zero ops), 0)))
                      (q_of_int ops (sint (snd (sum_active ops tps ((q_zero ops, q_zero ops), 0))))))
            in [TouchMoved x y])"
    by (simp add: TouchUpdateEvent_def split: prod.splits)
  have none: "(\<forall>tp \<in> set tps. \<not> is_active tp) \<longrightarrow>
         TouchUpdateEvent ops w tps =
           (let (x, y) = ScaleTouch ops w
                   (point_div ops (q_zero ops, q_zero ops) (q_of_int ops 0))
            in [TouchMoved x y])"
  proof
    assume "\<forall>tp \<in> set tps. \<not> is_active tp"
    then have "filter is_active tps = []" by (simp add: filter_empty_conv)
    then show "TouchUpdateEvent ops w tps =
           (let (x, y) = ScaleTouch ops w
                   (point_div ops (q_zero ops, q_zero ops) (q_of_int ops 0))
            in [TouchMoved x y])"
      by (simp add: TouchUpdateEvent_def sum_active_eq)
  qed
  show ?thesis
    using unguarded none active_count [OF assms, of ops "(q_zero ops, q_zero ops)"]
      divisor_nonzero_iff [OF assms, of ops "(q_zero ops, q_zero ops)"]
      active_bits [of tp] released_inactive [of tp]
    by (simp add: sum_active_eq)
qed

theorem c9_divides_by_active_count_witness:
  "length lifted_finger < 2 ^ 31 \<and> length two_fingers < 2 ^ 31
   \<and> filter is_active lifted_finger = []
   \<and> tp_state (hd lifted_finger) = TouchPointReleased
   \<and> snd (sum_active exact_ops lifted_finger ((q_zero exact_ops, q_zero exact_ops), 0)) = 0
   \<and> sum_active exact_ops two_fingers ((q_zero exact_ops, q_zero exact_ops), 0) = ((0, 0), 1)
   \<and> (\<exists>tp \<in> set two_fingers. is_active tp)"
proof -
  have h: "length lifted_finger < 2 ^ 31" "length two_fingers < 2 ^ 31"
    by (simp_all add: lifted_finger_def two_fingers_def)
  have r: "tp_state (hd lifted_finger) = TouchPointReleased" by (simp add: lifted_finger_def)
  have n: "\<forall>tp \<in> set lifted_finger. \<not> is_active tp"
    by (simp add: lifted_finger_def released_inactive)
  have s: "sum_active exact_ops two_fingers ((q_zero exact_ops, q_zero exact_ops), 0) = ((0, 0), 1)"
    by code_simp
  show ?thesis
    using c9_divides_by_active_count [OF h(1), of exact_ops plain_window "hd lifted_finger"]
      c9_divides_by_active_count [OF h(2), of exact_ops plain_window "hd two_fingers"] h r n s
    by (simp add: filter_empty_conv)
qed

text \<open>
  C10. For a mouse press, move or release event whose source is
  \<open>Qt::MouseEventSynthesizedBySystem\<close>, the handler returns at once: no touch call, no
  motion-emulation call and no call of the base handler is made, and the widget is left
  as it was.
\<close>

theorem c10_synthesized_mouse_ignored:
  assumes "source ev = MouseEventSynthesizedBySystem"
  shows "mousePressEvent ops w ev = [] \<and> mouseMoveEvent ops w ev = [] \<and> mouseReleaseEvent ev = []
    \<and> deliver ops cfg (QtMousePress ev) w = Some ([], w)
    \<and> deliver ops cfg (QtMouseMove ev) w = Some ([], w)
    \<and> deliver ops cfg (QtMouseRelease ev) w = Some ([], w)"
  using assms
  by (simp add: mousePressEvent_def mouseMoveEvent_def mouseReleaseEvent_def deliver_def)

theorem c10_synthesized_mouse_ignored_witness:
  "source synthesized_press = MouseEventSynthesizedBySystem
   \<and> deliver exact_ops gl_cfg (QtMousePress synthesized_press) plain_window = Some ([], plain_window)
   \<and> deliver exact_ops gl_cfg (QtMouseMove synthesized_press) plain_window = Some ([], plain_window)
   \<and> deliver exact_ops gl_cfg (QtMouseRelease synthesized_press) plain_window = Some ([], plain_window)
   \<and> deliver exact_ops gl_cfg (QtMousePress (synthesized_press\<lparr>source := MouseEventNotSynthesized\<rparr>))
       plain_window = Some ([TouchPressed 100 50, QWidget_mousePressEvent], plain_window)"
proof -
  have h: "source synthesized_press = MouseEventSynthesizedBySystem"
    by (simp add: synthesized_press_def)
  have n: "deliver exact_ops gl_cfg (QtMousePress (synthesized_press\<lparr>source := MouseEventNotSynthesized\<rparr>))
       plain_window = Some ([TouchPressed 100 50, QWidget_mousePressEvent], plain_window)"
    by code_simp
  show ?thesis
    using c10_synthesized_mouse_ignored [OF h, of exact_ops plain_window gl_cfg] h n
    by simp
qed

end
